theory Spec2Isabelle
  imports Complex_Main
begin

text \<open>
  A model of the sit-to-rise analysis of \<^verbatim>\<open>src/services/tensorflowService.js\<close> (angle
  geometry, per-frame metrics, phase segmentation, support penalties, score aggregation and
  the analysis run) and of the frame sampler \<^verbatim>\<open>sampleFrames\<close> of the video service, with the
  properties proved of them.
\<close>

section \<open>JavaScript numbers\<close>

text \<open>
  The analysis code computes on JavaScript numbers. A number is modelled as a real, one of
  the two infinities, or NaN. The operations of this section are exact on the finite values
  and leave out the sign of zero. The geometry, the per-frame metrics and the averages use
  them; the phase scores, of which two decimals are kept, are computed with the rounding
  operations of the section on double precision. A property read from an object that lacks
  it (\<^verbatim>\<open>undefined\<close>) behaves in every arithmetic operation, comparison and \<^verbatim>\<open>isNaN\<close>
  test of this code as NaN does, so \<open>NaN\<close> also stands for such a value.
\<close>

datatype jsnum = Fin real | PInf | NInf | NaN

instantiation jsnum :: "{plus, minus, uminus, times, inverse, abs, ord}"
begin

fun plus_jsnum :: "jsnum \<Rightarrow> jsnum \<Rightarrow> jsnum" where
  "plus_jsnum (Fin a) (Fin b) = Fin (a + b)"
| "plus_jsnum NaN _ = NaN"
| "plus_jsnum _ NaN = NaN"
| "plus_jsnum PInf NInf = NaN"
| "plus_jsnum NInf PInf = NaN"
| "plus_jsnum PInf _ = PInf"
| "plus_jsnum _ PInf = PInf"
| "plus_jsnum NInf _ = NInf"
| "plus_jsnum _ NInf = NInf"

fun uminus_jsnum :: "jsnum \<Rightarrow> jsnum" where
  "uminus_jsnum (Fin a) = Fin (- a)"
| "uminus_jsnum PInf = NInf"
| "uminus_jsnum NInf = PInf"
| "uminus_jsnum NaN = NaN"

definition minus_jsnum :: "jsnum \<Rightarrow> jsnum \<Rightarrow> jsnum" where
  "minus_jsnum a b = a + (- b)"

fun times_jsnum :: "jsnum \<Rightarrow> jsnum \<Rightarrow> jsnum" where
  "times_jsnum (Fin a) (Fin b) = Fin (a * b)"
| "times_jsnum NaN _ = NaN"
| "times_jsnum _ NaN = NaN"
| "times_jsnum (Fin a) PInf = (if a = 0 then NaN else if 0 < a then PInf else NInf)"
| "times_jsnum (Fin a) NInf = (if a = 0 then NaN else if 0 < a then NInf else PInf)"
| "times_jsnum PInf (Fin b) = (if b = 0 then NaN else if 0 < b then PInf else NInf)"
| "times_jsnum NInf (Fin b) = (if b = 0 then NaN else if 0 < b then NInf else PInf)"
| "times_jsnum PInf PInf = PInf"
| "times_jsnum NInf NInf = PInf"
| "times_jsnum PInf NInf = NInf"
| "times_jsnum NInf PInf = NInf"

text \<open>Division by a zero takes the zero as positive.\<close>

fun divide_jsnum :: "jsnum \<Rightarrow> jsnum \<Rightarrow> jsnum" where
  "divide_jsnum (Fin a) (Fin b) =
     (if b = 0 then (if a = 0 then NaN else if 0 < a then PInf else NInf) else Fin (a / b))"
| "divide_jsnum NaN _ = NaN"
| "divide_jsnum _ NaN = NaN"
| "divide_jsnum (Fin a) PInf = Fin 0"
| "divide_jsnum (Fin a) NInf = Fin 0"
| "divide_jsnum PInf (Fin b) = (if 0 \<le> b then PInf else NInf)"
| "divide_jsnum NInf (Fin b) = (if 0 \<le> b then NInf else PInf)"
| "divide_jsnum PInf PInf = NaN"
| "divide_jsnum PInf NInf = NaN"
| "divide_jsnum NInf PInf = NaN"
| "divide_jsnum NInf NInf = NaN"

definition inverse_jsnum :: "jsnum \<Rightarrow> jsnum" where
  "inverse_jsnum a = divide (Fin 1) a"

fun abs_jsnum :: "jsnum \<Rightarrow> jsnum" where
  "abs_jsnum (Fin a) = Fin \<bar>a\<bar>"
| "abs_jsnum PInf = PInf"
| "abs_jsnum NInf = PInf"
| "abs_jsnum NaN = NaN"

text \<open>Every comparison with NaN is false.\<close>

fun less_jsnum :: "jsnum \<Rightarrow> jsnum \<Rightarrow> bool" where
  "less_jsnum (Fin a) (Fin b) = (a < b)"
| "less_jsnum NaN _ = False"
| "less_jsnum _ NaN = False"
| "less_jsnum _ NInf = False"
| "less_jsnum PInf _ = False"
| "less_jsnum NInf _ = True"
| "less_jsnum _ PInf = True"

fun less_eq_jsnum :: "jsnum \<Rightarrow> jsnum \<Rightarrow> bool" where
  "less_eq_jsnum (Fin a) (Fin b) = (a \<le> b)"
| "less_eq_jsnum NaN _ = False"
| "less_eq_jsnum _ NaN = False"
| "less_eq_jsnum NInf _ = True"
| "less_eq_jsnum _ PInf = True"
| "less_eq_jsnum _ NInf = False"
| "less_eq_jsnum PInf _ = False"

instance ..

end

fun isNaN :: "jsnum \<Rightarrow> bool" where
  "isNaN NaN = True"
| "isNaN _ = False"

text \<open>\<^verbatim>\<open>Math.max\<close> and \<^verbatim>\<open>Math.min\<close> of two arguments: NaN when either is NaN.\<close>

definition Math_max :: "jsnum \<Rightarrow> jsnum \<Rightarrow> jsnum" where
  "Math_max a b = (if isNaN a \<or> isNaN b then NaN else if a < b then b else a)"

definition Math_min :: "jsnum \<Rightarrow> jsnum \<Rightarrow> jsnum" where
  "Math_min a b = (if isNaN a \<or> isNaN b then NaN else if b < a then b else a)"

fun Math_sqrt :: "jsnum \<Rightarrow> jsnum" where
  "Math_sqrt (Fin a) = (if a < 0 then NaN else Fin (sqrt a))"
| "Math_sqrt PInf = PInf"
| "Math_sqrt NInf = NaN"
| "Math_sqrt NaN = NaN"

text \<open>\<^verbatim>\<open>Math.pow(v, 2)\<close>.\<close>

definition Math_pow2 :: "jsnum \<Rightarrow> jsnum" where
  "Math_pow2 v = v * v"

text \<open>
  \<^verbatim>\<open>Math.atan2(y, x)\<close> on reals: the angle of the point \<open>(x, y)\<close> in \<open>(-\<pi>, \<pi>]\<close>,
  and \<open>0\<close> at the origin.
\<close>

definition atan2 :: "real \<Rightarrow> real \<Rightarrow> real" where
  "atan2 b a =
     (if 0 < a then arctan (b / a)
      else if a < 0 then (if 0 \<le> b then arctan (b / a) + pi else arctan (b / a) - pi)
      else if 0 < b then pi / 2
      else if b < 0 then - (pi / 2)
      else 0)"

fun Math_atan2 :: "jsnum \<Rightarrow> jsnum \<Rightarrow> jsnum" where
  "Math_atan2 (Fin b) (Fin a) = Fin (atan2 b a)"
| "Math_atan2 NaN _ = NaN"
| "Math_atan2 _ NaN = NaN"
| "Math_atan2 (Fin b) PInf = Fin 0"
| "Math_atan2 (Fin b) NInf = (if 0 \<le> b then Fin pi else Fin (- pi))"
| "Math_atan2 PInf (Fin a) = Fin (pi / 2)"
| "Math_atan2 NInf (Fin a) = Fin (- (pi / 2))"
| "Math_atan2 PInf PInf = Fin (pi / 4)"
| "Math_atan2 PInf NInf = Fin (3 * pi / 4)"
| "Math_atan2 NInf PInf = Fin (- (pi / 4))"
| "Math_atan2 NInf NInf = Fin (- (3 * pi / 4))"

text \<open>
  The number that \<^verbatim>\<open>v.toFixed(2)\<close> prints: the multiple of \<open>1/100\<close> nearest to \<open>v\<close>, the
  larger in magnitude on a tie; from \<open>10\<^sup>2\<^sup>1\<close> on, \<^verbatim>\<open>toFixed\<close> prints the number
  itself.
\<close>

fun toFixed2 :: "jsnum \<Rightarrow> jsnum" where
  "toFixed2 (Fin a) =
     (if 10 ^ 21 \<le> \<bar>a\<bar> then Fin a
      else Fin (sgn a * real_of_int \<lfloor>\<bar>a\<bar> * 100 + 1 / 2\<rfloor> / 100))"
| "toFixed2 v = v"

section \<open>Double precision\<close>

text \<open>
  The digits that \<^verbatim>\<open>toFixed(2)\<close> keeps depend on the rounding of the operations before it,
  so the phase scores are computed in IEEE 754 double precision: an operation yields the
  double nearest to its exact result, a tie going to the even significand. \<open>binade x\<close> is
  the binary exponent of \<open>x\<close>, the \<open>e\<close> with \<open>2 powi e \<le> \<bar>x\<bar> < 2 powi (e + 1)\<close>, and not
  below \<open>-1022\<close>, where the subnormal numbers begin; it is found by halving a magnitude of 2
  or more and by doubling a magnitude below 1, at most 1022 times. The doubles of that binade
  are the multiples of \<open>2 powi (binade x - 52)\<close>. \<open>fl\<close> rounds a real to the nearest of them,
  and \<open>dbl\<close> turns a rounded magnitude of \<open>2 ^ 1024\<close> or more into an infinity.
\<close>

function binadeUp :: "real \<Rightarrow> int \<Rightarrow> int" where
  "binadeUp a e = (if 2 \<le> a then binadeUp (a / 2) (e + 1) else e)"
  by pat_completeness auto

termination
proof (relation "measure (\<lambda>(a, e). nat \<lfloor>a\<rfloor>)")
  show "wf (measure (\<lambda>(a, e). nat \<lfloor>a\<rfloor>))"
    by simp
next
  fix a :: real and e :: int
  assume a: "2 \<le> a"
  then have "a / 2 \<le> a - 1"
    by simp
  then have "\<lfloor>a / 2\<rfloor> \<le> \<lfloor>a - 1\<rfloor>"
    by (rule floor_mono)
  moreover have "2 \<le> \<lfloor>a\<rfloor>"
    using a by (simp add: le_floor_iff)
  ultimately show "((a / 2, e + 1), (a, e)) \<in> measure (\<lambda>(a, e). nat \<lfloor>a\<rfloor>)"
    by simp
qed

declare binadeUp.simps [simp del]

fun binadeDown :: "nat \<Rightarrow> real \<Rightarrow> int \<Rightarrow> int" where
  "binadeDown 0 a e = e"
| "binadeDown (Suc n) a e = (if a < 1 then binadeDown n (a * 2) (e - 1) else e)"

definition binade :: "real \<Rightarrow> int" where
  "binade x = (if 1 \<le> \<bar>x\<bar> then binadeUp \<bar>x\<bar> 0 else binadeDown 1022 \<bar>x\<bar> 0)"

definition roundEven :: "real \<Rightarrow> int" where
  "roundEven v =
     (let n = \<lfloor>v\<rfloor>; r = v - of_int n
      in if r < 1 / 2 then n else if 1 / 2 < r then n + 1 else if even n then n else n + 1)"

definition fl :: "real \<Rightarrow> real" where
  "fl x =
     (if x = 0 then 0
      else of_int (roundEven (x / 2 powi (binade x - 52))) * 2 powi (binade x - 52))"

fun dbl :: "jsnum \<Rightarrow> jsnum" where
  "dbl (Fin a) =
     (if 2 ^ 1024 \<le> fl a then PInf else if fl a \<le> - (2 ^ 1024) then NInf else Fin (fl a))"
| "dbl v = v"

text \<open>Addition, subtraction and multiplication of doubles.\<close>

definition dadd :: "jsnum \<Rightarrow> jsnum \<Rightarrow> jsnum" where
  "dadd a b = dbl (a + b)"

definition dsub :: "jsnum \<Rightarrow> jsnum \<Rightarrow> jsnum" where
  "dsub a b = dbl (a - b)"

definition dmul :: "jsnum \<Rightarrow> jsnum \<Rightarrow> jsnum" where
  "dmul a b = dbl (a * b)"

section \<open>Configuration constants\<close>

definition KEYPOINT_CONFIDENCE_THRESHOLD :: jsnum where
  "KEYPOINT_CONFIDENCE_THRESHOLD = Fin 0.3"

definition MAX_SCORE :: jsnum where
  "MAX_SCORE = Fin 5"

definition MIN_PHASE_SCORE :: jsnum where
  "MIN_PHASE_SCORE = Fin 1.5"

definition PENALTY_FACTOR :: jsnum where
  "PENALTY_FACTOR = dbl (Fin 0.6)"

definition DEFAULT_HIP_DRIVE :: jsnum where
  "DEFAULT_HIP_DRIVE = Fin 0.3"

section \<open>Poses\<close>

record keypoint =
  kp_name :: string
  kp_x :: jsnum
  kp_y :: jsnum
  kp_score :: jsnum

record pose =
  keypoints :: "keypoint list"
  pose_width :: jsnum
  pose_height :: jsnum

text \<open>\<^verbatim>\<open>pose.keypoints.find((kp) => kp.name === n)\<close>; \<open>None\<close> is \<^verbatim>\<open>undefined\<close>.\<close>

definition find_keypoint :: "pose \<Rightarrow> string \<Rightarrow> keypoint option" where
  "find_keypoint p n = List.find (\<lambda>kp. kp_name kp = n) (keypoints p)"

text \<open>\<^verbatim>\<open>point?.score > KEYPOINT_CONFIDENCE_THRESHOLD\<close>.\<close>

fun confident :: "keypoint option \<Rightarrow> bool" where
  "confident None = False"
| "confident (Some k) = (KEYPOINT_CONFIDENCE_THRESHOLD < kp_score k)"

section \<open>Geometry\<close>

fun validatePoints :: "keypoint option \<Rightarrow> keypoint option \<Rightarrow> keypoint option \<Rightarrow> bool" where
  "validatePoints (Some p1) (Some p2) (Some p3) =
     (if isNaN (kp_x p1) \<or> isNaN (kp_y p1) \<or> isNaN (kp_x p2) \<or> isNaN (kp_y p2)
         \<or> isNaN (kp_x p3) \<or> isNaN (kp_y p3) then False
      else
        let d1 = Math_sqrt (Math_pow2 (kp_x p2 - kp_x p1) + Math_pow2 (kp_y p2 - kp_y p1));
            d2 = Math_sqrt (Math_pow2 (kp_x p3 - kp_x p2) + Math_pow2 (kp_y p3 - kp_y p2))
        in if d1 < Fin 1 \<or> d2 < Fin 1 then False else True)"
| "validatePoints _ _ _ = False"

fun calculateAngle :: "keypoint option \<Rightarrow> keypoint option \<Rightarrow> keypoint option \<Rightarrow> jsnum" where
  "calculateAngle (Some p1) (Some p2) (Some p3) =
     (if \<not> validatePoints (Some p1) (Some p2) (Some p3) then Fin 0
      else
        let radians = Math_atan2 (kp_y p3 - kp_y p2) (kp_x p3 - kp_x p2)
                      - Math_atan2 (kp_y p1 - kp_y p2) (kp_x p1 - kp_x p2);
            angle = abs (radians * Fin 180 / Fin pi)
        in Math_min (Fin 360) (Math_max (Fin 0) angle))"
| "calculateAngle _ _ _ = Fin 0"

section \<open>Per-frame metrics\<close>

definition isValidScore :: "jsnum \<Rightarrow> bool" where
  "isValidScore s = (\<not> isNaN s \<and> Fin 0 \<le> s \<and> s \<le> Fin 1)"

definition safeScore :: "jsnum \<Rightarrow> jsnum \<Rightarrow> jsnum" where
  "safeScore s defaultValue = (if isValidScore s then s else defaultValue)"

record angle_score =
  angle :: jsnum
  score :: jsnum

text \<open>The result of \<^verbatim>\<open>analyzeStability\<close>; \<open>dev_score\<close> is its field \<^verbatim>\<open>score\<close>.\<close>

record deviation_score =
  deviation :: jsnum
  dev_score :: jsnum

text \<open>
  The guards \<^verbatim>\<open>if (shoulder && hip && knee)\<close> test that the keypoints were found: an
  object is truthy whatever its fields hold.
\<close>

definition analyzeSpinalAlignment :: "pose \<Rightarrow> angle_score" where
  "analyzeSpinalAlignment p =
     (let shoulder = find_keypoint p ''right_shoulder'';
          hip = find_keypoint p ''right_hip'';
          knee = find_keypoint p ''right_knee''
      in if shoulder \<noteq> None \<and> hip \<noteq> None \<and> knee \<noteq> None then
           let a = calculateAngle shoulder hip knee
           in \<lparr>angle = a, score = abs (Fin 180 - a) / Fin 180\<rparr>
         else \<lparr>angle = Fin 0, score = Fin 0\<rparr>)"

definition analyzeKneeFlexion :: "pose \<Rightarrow> angle_score" where
  "analyzeKneeFlexion p =
     (let hip = find_keypoint p ''right_hip'';
          knee = find_keypoint p ''right_knee'';
          ankle = find_keypoint p ''right_ankle''
      in if hip \<noteq> None \<and> knee \<noteq> None \<and> ankle \<noteq> None then
           let a = calculateAngle hip knee ankle
           in \<lparr>angle = a, score = (if Fin 90 < a then Fin 1 else a / Fin 90)\<rparr>
         else \<lparr>angle = Fin 0, score = Fin 0\<rparr>)"

definition analyzeKneeExtension :: "pose \<Rightarrow> angle_score" where
  "analyzeKneeExtension p =
     (let hip = find_keypoint p ''right_hip'';
          knee = find_keypoint p ''right_knee'';
          ankle = find_keypoint p ''right_ankle''
      in if hip \<noteq> None \<and> knee \<noteq> None \<and> ankle \<noteq> None then
           let a = calculateAngle hip knee ankle
           in \<lparr>angle = a, score = (if Fin 160 < a then Fin 1 else a / Fin 160)\<rparr>
         else \<lparr>angle = Fin 0, score = Fin 0\<rparr>)"

definition analyzeHipControl :: "pose \<Rightarrow> angle_score" where
  "analyzeHipControl p =
     (let shoulder = find_keypoint p ''right_shoulder'';
          hip = find_keypoint p ''right_hip'';
          knee = find_keypoint p ''right_knee''
      in if confident shoulder \<and> confident hip \<and> confident knee then
           let a = calculateAngle shoulder hip knee;
               s = Math_max (Fin 0)
                     (Math_min (Fin 1) (if a < Fin 30 then Fin 1 else (Fin 90 - a) / Fin 60))
           in \<lparr>angle = a, score = s\<rparr>
         else \<lparr>angle = Fin 0, score = Fin 0\<rparr>)"

text \<open>
  After the \<^verbatim>\<open>every\<close> test the four keypoints are present, so the last case of the
  pattern match is never reached.
\<close>

definition analyzeHipDrive :: "pose \<Rightarrow> angle_score" where
  "analyzeHipDrive p =
     (let shoulder = find_keypoint p ''right_shoulder'';
          hip = find_keypoint p ''right_hip'';
          knee = find_keypoint p ''right_knee'';
          ankle = find_keypoint p ''right_ankle''
      in if \<not> list_all confident [shoulder, hip, knee, ankle] then
           \<lparr>angle = Fin 0, score = DEFAULT_HIP_DRIVE\<rparr>
         else
           (case (shoulder, hip, ankle) of
              (Some sh, Some hp, Some an) \<Rightarrow>
                let totalHeight = kp_y sh - kp_y an
                in if totalHeight \<le> Fin 0 then \<lparr>angle = Fin 0, score = DEFAULT_HIP_DRIVE\<rparr>
                   else
                     let hipProgress =
                           Math_max (Fin 0)
                             (Math_min (Fin 1) ((kp_y an - kp_y hp) / (kp_y an - kp_y sh)));
                         verticalAlignment = abs (kp_x hp - kp_x an) / pose_width p;
                         trunkAngle = calculateAngle shoulder hip knee;
                         angleScore = Math_max (Fin 0) (Math_min (Fin 1) (trunkAngle / Fin 180));
                         s = safeScore
                               (hipProgress * Fin 0.5 + angleScore * Fin 0.3
                                  + (Fin 1 - verticalAlignment) * Fin 0.2)
                               DEFAULT_HIP_DRIVE
                     in \<lparr>angle = trunkAngle, score = s\<rparr>
            | _ \<Rightarrow> \<lparr>angle = Fin 0, score = DEFAULT_HIP_DRIVE\<rparr>))"

definition analyzeStability :: "pose \<Rightarrow> deviation_score" where
  "analyzeStability p =
     (let ankle = find_keypoint p ''right_ankle'';
          hip = find_keypoint p ''right_hip'';
          shoulder = find_keypoint p ''right_shoulder''
      in case (ankle, hip, shoulder) of
           (Some an, Some hp, Some sh) \<Rightarrow>
             let verticalDeviation = abs (kp_x sh - kp_x hp) + abs (kp_x hp - kp_x an)
             in \<lparr>deviation = verticalDeviation,
                 dev_score = Math_max (Fin 0) (Fin 1 - verticalDeviation / Fin 100)\<rparr>
         | _ \<Rightarrow> \<lparr>deviation = Fin 0, dev_score = Fin 0\<rparr>)"

section \<open>Errors\<close>

text \<open>
  \<open>InsufficientFrames\<close> is the error thrown by the frame-count check, \<open>TypeError\<close> the one
  raised by reading a property of \<^verbatim>\<open>undefined\<close>, and \<open>AnalysisFailed\<close> the error
  \<^verbatim>\<open>"Failed to analyze video"\<close> that the \<^verbatim>\<open>catch\<close> block of \<^verbatim>\<open>analyzeSRTVideo\<close>
  throws in place of any other.
\<close>

datatype error = InsufficientFrames | TypeError | AnalysisFailed

text \<open>\<^verbatim>\<open>Array.prototype.map\<close> with a callback that may throw: the first error ends the run.\<close>

fun mapE :: "('a \<Rightarrow> error + 'b) \<Rightarrow> 'a list \<Rightarrow> error + 'b list" where
  "mapE f [] = Inr []"
| "mapE f (v # vs) =
     (case f v of
        Inl e \<Rightarrow> Inl e
      | Inr w \<Rightarrow> (case mapE f vs of Inl e \<Rightarrow> Inl e | Inr ws \<Rightarrow> Inr (w # ws)))"

section \<open>Phases\<close>

record sitting_frame =
  kneeFlexion :: angle_score
  hipControl :: angle_score
  spinalAlignment :: angle_score

record rising_frame =
  kneeExtension :: angle_score
  hipDrive :: angle_score
  stability :: deviation_score

text \<open>
  An entry of the pose sequence is \<open>None\<close> when the estimator detected nothing
  (\<^verbatim>\<open>poses[0]\<close> of an empty array); reading \<^verbatim>\<open>pose.keypoints\<close> of it throws.
\<close>

fun sittingMetrics :: "pose option \<Rightarrow> error + sitting_frame" where
  "sittingMetrics None = Inl TypeError"
| "sittingMetrics (Some p) =
     Inr \<lparr>kneeFlexion = analyzeKneeFlexion p,
          hipControl = analyzeHipControl p,
          spinalAlignment = analyzeSpinalAlignment p\<rparr>"

fun risingMetrics :: "pose option \<Rightarrow> error + rising_frame" where
  "risingMetrics None = Inl TypeError"
| "risingMetrics (Some p) =
     Inr \<lparr>kneeExtension = analyzeKneeExtension p,
          hipDrive = analyzeHipDrive p,
          stability = analyzeStability p\<rparr>"

definition analyzeSittingPhase :: "pose option list \<Rightarrow> error + sitting_frame list" where
  "analyzeSittingPhase poses = mapE sittingMetrics poses"

definition analyzeRisingPhase :: "pose option list \<Rightarrow> error + rising_frame list" where
  "analyzeRisingPhase poses = mapE risingMetrics poses"

section \<open>Phase transition\<close>

record transition_state =
  transitionFrame :: nat
  maxHipMovement :: jsnum
  maxHipY :: jsnum
  lowestHipFrame :: nat

text \<open>One iteration of the loop of \<^verbatim>\<open>detectPhaseTransition\<close>, at index \<open>i\<close>.\<close>

definition transitionStep ::
  "pose option list \<Rightarrow> nat \<Rightarrow> transition_state \<Rightarrow> error + transition_state" where
  "transitionStep poses i st =
     (case (poses ! (i - 1), poses ! i, poses ! (i + 1)) of
        (Some pp, Some pc, Some pn) \<Rightarrow>
          let prevHip = find_keypoint pp ''right_hip'';
              currentHip = find_keypoint pc ''right_hip'';
              nextHip = find_keypoint pn ''right_hip''
          in if confident prevHip \<and> confident currentHip \<and> confident nextHip then
               (case (prevHip, currentHip, nextHip) of
                  (Some ph, Some ch, Some nh) \<Rightarrow>
                    let movement = abs (kp_y nh - kp_y ph);
                        st1 = (if maxHipMovement st < movement
                               then st\<lparr>maxHipMovement := movement, transitionFrame := i\<rparr>
                               else st);
                        st2 = (if maxHipY st1 < kp_y ch
                               then st1\<lparr>maxHipY := kp_y ch, lowestHipFrame := i\<rparr>
                               else st1)
                    in Inr st2
                | _ \<Rightarrow> Inr st)
             else Inr st
      | _ \<Rightarrow> Inl TypeError)"

fun transitionLoop ::
  "pose option list \<Rightarrow> nat list \<Rightarrow> transition_state \<Rightarrow> error + transition_state" where
  "transitionLoop poses [] st = Inr st"
| "transitionLoop poses (i # is) st =
     (case transitionStep poses i st of
        Inl e \<Rightarrow> Inl e
      | Inr st' \<Rightarrow> transitionLoop poses is st')"

definition initialTransitionState :: "pose option list \<Rightarrow> transition_state" where
  "initialTransitionState poses =
     \<lparr>transitionFrame = length poses div 2, maxHipMovement = Fin 0,
      maxHipY = NInf, lowestHipFrame = 0\<rparr>"

text \<open>The loop runs over \<open>i = 1, \<dots>, length - 2\<close>; every index it reads is in range.\<close>

definition detectPhaseTransition :: "pose option list \<Rightarrow> error + nat" where
  "detectPhaseTransition poses =
     (case transitionLoop poses [1 ..< length poses - 1] (initialTransitionState poses) of
        Inl e \<Rightarrow> Inl e
      | Inr st \<Rightarrow>
          Inr (if \<bar>int (lowestHipFrame st) - int (transitionFrame st)\<bar> < 5
               then lowestHipFrame st else transitionFrame st))"

definition minFramesPerPhase :: nat where
  "minFramesPerPhase = 10"

text \<open>
  The two slices of \<^verbatim>\<open>analyzeSRTVideo\<close>:
  \<^verbatim>\<open>poseAnalyses.slice(0, Math.max(minFramesPerPhase, transitionFrame))\<close> and
  \<^verbatim>\<open>poseAnalyses.slice(Math.min(poseAnalyses.length - minFramesPerPhase, transitionFrame))\<close>.
  A negative start counts from the end of the array.
\<close>

definition sittingSlice :: "'a list \<Rightarrow> nat \<Rightarrow> 'a list" where
  "sittingSlice poses t = take (max minFramesPerPhase t) poses"

definition risingSlice :: "'a list \<Rightarrow> nat \<Rightarrow> 'a list" where
  "risingSlice poses t =
     (let start = min (int (length poses) - int minFramesPerPhase) (int t)
      in if start < 0 then drop (nat (max 0 (int (length poses) + start))) poses
         else drop (nat start) poses)"

section \<open>Support points\<close>

datatype support = HAND | KNEE

text \<open>\<^verbatim>\<open>wrist?.score > KEYPOINT_CONFIDENCE_THRESHOLD && wrist.y > threshold\<close>.\<close>

fun supportedBelow :: "jsnum \<Rightarrow> keypoint option \<Rightarrow> bool" where
  "supportedBelow threshold None = False"
| "supportedBelow threshold (Some k) =
     (KEYPOINT_CONFIDENCE_THRESHOLD < kp_score k \<and> threshold < kp_y k)"

definition detectSupportPoints :: "pose \<Rightarrow> support list" where
  "detectSupportPoints p =
     (let groundLevel =
            foldl Math_max NInf
              (map kp_y (filter (\<lambda>kp. KEYPOINT_CONFIDENCE_THRESHOLD < kp_score kp) (keypoints p)));
          handSupportThreshold = groundLevel - pose_height p * Fin 0.3;
          kneeSupportThreshold = groundLevel - pose_height p * Fin 0.2;
          wrists = [find_keypoint p ''left_wrist'', find_keypoint p ''right_wrist''];
          supports1 = (if list_ex (supportedBelow handSupportThreshold) wrists then [HAND] else []);
          knees = [find_keypoint p ''left_knee'', find_keypoint p ''right_knee''];
          supports2 = (if list_ex (supportedBelow kneeSupportThreshold) knees
                       then supports1 @ [KNEE] else supports1)
      in supports2)"

fun supportsOf :: "pose option \<Rightarrow> error + support list" where
  "supportsOf None = Inl TypeError"
| "supportsOf (Some p) = Inr (detectSupportPoints p)"

record support_penalty =
  sitting :: jsnum
  rising :: jsnum

definition calculatePhasePenalty :: "support list list \<Rightarrow> jsnum" where
  "calculatePhasePenalty phaseSupports =
     (let uniqueSupports = set (concat phaseSupports);
          penalty0 = Fin 0;
          penalty1 = (if HAND \<in> uniqueSupports then penalty0 + Fin 1 else penalty0);
          penalty2 = (if KNEE \<in> uniqueSupports then penalty1 + Fin 0.5 else penalty1)
      in penalty2)"

text \<open>\<^verbatim>\<open>slice\<close> truncates the bound \<^verbatim>\<open>supportPoints.length / 2\<close> to an integer.\<close>

definition calculateSupportPenalty :: "support list list \<Rightarrow> support_penalty" where
  "calculateSupportPenalty supportPoints =
     (let sittingSupports = take (length supportPoints div 2) supportPoints;
          risingSupports = drop (length supportPoints div 2) supportPoints
      in \<lparr>sitting = calculatePhasePenalty sittingSupports,
          rising = calculatePhasePenalty risingSupports\<rparr>)"

section \<open>Score aggregation\<close>

text \<open>\<^verbatim>\<open>arr.reduce((a, b) => a + b, 0) / arr.length\<close>; NaN on the empty array.\<close>

definition average :: "jsnum list \<Rightarrow> jsnum" where
  "average arr = foldl (+) (Fin 0) arr / Fin (real (length arr))"

text \<open>
  The local function \<^verbatim>\<open>safeAverage\<close> of \<^verbatim>\<open>calculateComponentScores\<close>, at its default
  \<^verbatim>\<open>minRequired = 3\<close>. A score is a number, so the test \<^verbatim>\<open>score !== null\<close> holds.
\<close>

definition safeAverage :: "jsnum list \<Rightarrow> jsnum" where
  "safeAverage scores =
     (let validScores = filter (\<lambda>s. \<not> isNaN s) scores
      in if 3 \<le> length validScores then average validScores else DEFAULT_HIP_DRIVE)"

record component_scores =
  posturalControl :: jsnum
  balance :: jsnum
  coordination :: jsnum

definition calculateComponentScores ::
  "sitting_frame list \<Rightarrow> rising_frame list \<Rightarrow> component_scores" where
  "calculateComponentScores sittingPhase risingPhase =
     \<lparr>posturalControl =
        Math_max (Fin 0) (Math_min (Fin 1) (safeAverage
          (map (\<lambda>p. score (spinalAlignment p) * Fin 1.3) sittingPhase
           @ map (\<lambda>p. dev_score (stability p) * Fin 1.2) risingPhase))),
      balance =
        Math_max (Fin 0) (Math_min (Fin 1) (safeAverage
          (map (\<lambda>p. score (hipControl p) * Fin 1.4) sittingPhase
           @ map (\<lambda>p. dev_score (stability p) * Fin 1.3) risingPhase))),
      coordination =
        Math_max (Fin 0) (Math_min (Fin 1) (safeAverage
          (map (\<lambda>p. score (kneeFlexion p) * Fin 1.1) sittingPhase
           @ map (\<lambda>p. score (kneeExtension p) * Fin 1.1) risingPhase
           @ map (\<lambda>p. score (hipDrive p) * Fin 1.2) risingPhase)))\<rparr>"

text \<open>The phase-level metric averages, \<^verbatim>\<open>sittingScores\<close> and \<^verbatim>\<open>risingScores\<close>.\<close>

record sitting_scores =
  kneeFlexionAvg :: jsnum
  hipControlAvg :: jsnum
  spinalAlignmentAvg :: jsnum

record rising_scores =
  kneeExtensionAvg :: jsnum
  hipDriveAvg :: jsnum
  stabilityAvg :: jsnum

record phase_scores =
  sitScore :: jsnum
  riseScore :: jsnum
  totalScore :: jsnum

text \<open>
  Every operation of \<^verbatim>\<open>calculatePhaseScores\<close> rounds to a double, the literals
  \<^verbatim>\<open>0.35\<close>, \<^verbatim>\<open>0.3\<close>, \<^verbatim>\<open>0.4\<close> and \<^verbatim>\<open>0.6\<close> are the doubles nearest to them, and
  \<^verbatim>\<open>Number(v.toFixed(2))\<close> is the double nearest to the decimal printed.
\<close>

definition calculatePhaseScores ::
  "sitting_scores \<Rightarrow> rising_scores \<Rightarrow> support_penalty \<Rightarrow> phase_scores" where
  "calculatePhaseScores sittingPhase risingPhase supportPenalty =
     (let rawSitScore =
            Math_max MIN_PHASE_SCORE
              (dmul
                 (dadd
                    (dadd (dmul (kneeFlexionAvg sittingPhase) (dbl (Fin 0.35)))
                          (dmul (hipControlAvg sittingPhase) (dbl (Fin 0.35))))
                    (dmul (spinalAlignmentAvg sittingPhase) (dbl (Fin 0.3))))
                 MAX_SCORE);
          rawRiseScore =
            Math_max MIN_PHASE_SCORE
              (dmul
                 (dadd
                    (dadd (dmul (kneeExtensionAvg risingPhase) (dbl (Fin 0.3)))
                          (dmul (hipDriveAvg risingPhase) (dbl (Fin 0.4))))
                    (dmul (stabilityAvg risingPhase) (dbl (Fin 0.3))))
                 MAX_SCORE);
          sitScore' =
            Math_max MIN_PHASE_SCORE
              (Math_min MAX_SCORE
                 (dsub rawSitScore (dmul (sitting supportPenalty) PENALTY_FACTOR)));
          riseScore' =
            Math_max MIN_PHASE_SCORE
              (Math_min MAX_SCORE
                 (dsub rawRiseScore (dmul (rising supportPenalty) PENALTY_FACTOR)))
      in \<lparr>sitScore = dbl (toFixed2 sitScore'),
          riseScore = dbl (toFixed2 riseScore'),
          totalScore = dbl (toFixed2 (Math_min (Fin 10) (dadd sitScore' riseScore')))\<rparr>)"

section \<open>Frame sampling\<close>

definition MAX_FRAMES :: nat where
  "MAX_FRAMES = 40"

text \<open>
  The loop \<^verbatim>\<open>for (let i = step; i < frames.length - step; i += step)\<close> of
  \<^verbatim>\<open>sampleFrames\<close>, from index \<open>i\<close> on. Its only caller passes a step of at least 2; the
  test \<open>0 < step\<close> makes the model total for the step 0, with which the source would not
  come back.
\<close>

function sampleLoop :: "'a list \<Rightarrow> nat \<Rightarrow> nat \<Rightarrow> 'a list" where
  "sampleLoop frames step i =
     (if 0 < step \<and> int i < int (length frames) - int step
      then frames ! i # sampleLoop frames step (i + step)
      else [])"
  by pat_completeness auto
termination
  by (relation "measure (\<lambda>(frames, step, i). length frames - i)") auto

text \<open>Here \<open>frames\<close> holds more than 40 entries whenever an index is read.\<close>

definition sampleFrames :: "'a list \<Rightarrow> 'a list" where
  "sampleFrames frames =
     (if length frames \<le> MAX_FRAMES then frames
      else
        let step = nat \<lceil>real (length frames) / real MAX_FRAMES\<rceil>
        in [frames ! 0] @ sampleLoop frames step step @ [frames ! (length frames - 1)])"

section \<open>The analysis run\<close>

record report =
  scores :: phase_scores
  componentScores :: component_scores
  sittingPhaseScores :: sitting_scores
  risingPhaseScores :: rising_scores
  supportPointsUsed :: "support list list"
  reportTransitionFrame :: nat

text \<open>
  The body of the \<^verbatim>\<open>try\<close> block of \<^verbatim>\<open>analyzeSRTVideo\<close>, from the sampled frames and the
  pose estimator (\<^verbatim>\<open>analyzePoseInFrame\<close>, which yields \<^verbatim>\<open>poses[0]\<close>: \<open>None\<close> when nothing
  was detected). Frame extraction, the timers, the feedback texts and the intermediate scores
  that the function computes and never uses are left out.
\<close>

definition analyzeSRTVideo_try :: "'f list \<Rightarrow> ('f \<Rightarrow> pose option) \<Rightarrow> error + report" where
  "analyzeSRTVideo_try frames estimate =
     (let poseAnalyses = map estimate frames
      in if length poseAnalyses < minFramesPerPhase * 2 then Inl InsufficientFrames
         else
           case detectPhaseTransition poseAnalyses of
             Inl e \<Rightarrow> Inl e
           | Inr t \<Rightarrow>
           (case analyzeSittingPhase (sittingSlice poseAnalyses t) of
             Inl e \<Rightarrow> Inl e
           | Inr sittingPhase \<Rightarrow>
           (case analyzeRisingPhase (risingSlice poseAnalyses t) of
             Inl e \<Rightarrow> Inl e
           | Inr risingPhase \<Rightarrow>
           (case mapE supportsOf poseAnalyses of
             Inl e \<Rightarrow> Inl e
           | Inr supportPoints \<Rightarrow>
               let supportPenalty = calculateSupportPenalty supportPoints;
                   components = calculateComponentScores sittingPhase risingPhase;
                   sittingScores =
                     \<lparr>kneeFlexionAvg =
                        safeScore (average (map (\<lambda>p. score (kneeFlexion p)) sittingPhase)) (Fin 0),
                      hipControlAvg =
                        safeScore (average (map (\<lambda>p. score (hipControl p)) sittingPhase)) (Fin 0),
                      spinalAlignmentAvg =
                        safeScore (average (map (\<lambda>p. score (spinalAlignment p)) sittingPhase))
                          (Fin 0)\<rparr>;
                   risingScores =
                     \<lparr>kneeExtensionAvg =
                        safeScore (average (map (\<lambda>p. score (kneeExtension p)) risingPhase)) (Fin 0),
                      hipDriveAvg =
                        safeScore (average (map (\<lambda>p. score (hipDrive p)) risingPhase)) (Fin 0),
                      stabilityAvg =
                        safeScore (average (map (\<lambda>p. dev_score (stability p)) risingPhase))
                          (Fin 0)\<rparr>
               in Inr \<lparr>scores = calculatePhaseScores sittingScores risingScores supportPenalty,
                       componentScores = components,
                       sittingPhaseScores = sittingScores,
                       risingPhaseScores = risingScores,
                       supportPointsUsed = supportPoints,
                       reportTransitionFrame = t\<rparr>))))"

text \<open>The \<^verbatim>\<open>catch\<close> block replaces every error by \<^verbatim>\<open>"Failed to analyze video"\<close>.\<close>

definition analyzeSRTVideo :: "'f list \<Rightarrow> ('f \<Rightarrow> pose option) \<Rightarrow> error + report" where
  "analyzeSRTVideo frames estimate =
     (case analyzeSRTVideo_try frames estimate of
        Inl e \<Rightarrow> Inl AnalysisFailed
      | Inr r \<Rightarrow> Inr r)"

section \<open>The specification's formulas\<close>


definition clamp01 :: "jsnum \<Rightarrow> jsnum" where
  "clamp01 v = Math_max (Fin 0) (Math_min (Fin 1) v)"


text \<open>
  A metric average uses only the valid (non-NaN) per-frame scores of the phase, and is 0.3
  when fewer than 3 of them exist.
\<close>

definition spec_metricAverage :: "jsnum list \<Rightarrow> jsnum" where
  "spec_metricAverage frameScores =
     (let valid = filter (\<lambda>s. \<not> isNaN s) frameScores
      in if length valid < 3 then Fin 0.3 else average valid)"

text \<open>
  posturalControl = average(1.3 \<cdot> sitting.spinalAlignment, 1.2 \<cdot> rising.stability), and the
  other two indices likewise, each clamped to \<open>[0, 1]\<close>.
\<close>

definition spec_posturalControl :: "sitting_frame list \<Rightarrow> rising_frame list \<Rightarrow> jsnum" where
  "spec_posturalControl sittingPhase risingPhase =
     clamp01 (average
       [Fin 1.3 * spec_metricAverage (map (\<lambda>p. score (spinalAlignment p)) sittingPhase),
        Fin 1.2 * spec_metricAverage (map (\<lambda>p. dev_score (stability p)) risingPhase)])"

definition spec_balance :: "sitting_frame list \<Rightarrow> rising_frame list \<Rightarrow> jsnum" where
  "spec_balance sittingPhase risingPhase =
     clamp01 (average
       [Fin 1.4 * spec_metricAverage (map (\<lambda>p. score (hipControl p)) sittingPhase),
        Fin 1.3 * spec_metricAverage (map (\<lambda>p. dev_score (stability p)) risingPhase)])"

definition spec_coordination :: "sitting_frame list \<Rightarrow> rising_frame list \<Rightarrow> jsnum" where
  "spec_coordination sittingPhase risingPhase =
     clamp01 (average
       [Fin 1.1 * spec_metricAverage (map (\<lambda>p. score (kneeFlexion p)) sittingPhase),
        Fin 1.1 * spec_metricAverage (map (\<lambda>p. score (kneeExtension p)) risingPhase),
        Fin 1.2 * spec_metricAverage (map (\<lambda>p. score (hipDrive p)) risingPhase)])"

text \<open>
  The score formulas on finite numbers, in double precision and in the order in which the code
  applies the operations: a raw phase score is the weighted sum of three metric averages
  times 5, floored at 1.5; the penalized score is clamp(raw - penalty \<times> 0.6, 1.5, 5); a
  reported score is the double nearest to the score rounded to 2 decimals, a tie going up.
\<close>

definition rawPhaseScore :: "real \<Rightarrow> real \<Rightarrow> real \<Rightarrow> real \<Rightarrow> real \<Rightarrow> real \<Rightarrow> real" where
  "rawPhaseScore w1 m1 w2 m2 w3 m3 =
     max 1.5 (fl (fl (fl (fl (m1 * fl w1) + fl (m2 * fl w2)) + fl (m3 * fl w3)) * 5))"

definition penalizedScore :: "real \<Rightarrow> real \<Rightarrow> real" where
  "penalizedScore raw penalty = max 1.5 (min 5 (fl (raw - fl (penalty * fl 0.6))))"

definition round2 :: "real \<Rightarrow> real" where
  "round2 v = real_of_int \<lfloor>v * 100 + 1 / 2\<rfloor> / 100"

definition reported :: "real \<Rightarrow> real" where
  "reported v = fl (round2 v)"

text \<open>
  The penalized phase score in exact arithmetic: the value of
  \<open>clamp(raw - penalty \<times> 0.6, 1.5, 5)\<close> on reals, rounded to 2 decimals.
\<close>

definition spec_phaseScore ::
  "real \<Rightarrow> real \<Rightarrow> real \<Rightarrow> real \<Rightarrow> real \<Rightarrow> real \<Rightarrow> real \<Rightarrow> real" where
  "spec_phaseScore w1 m1 w2 m2 w3 m3 penalty =
     round2 (max 1.5 (min 5 (max 1.5 ((w1 * m1 + w2 * m2 + w3 * m3) * 5) - penalty * 0.6)))"

text \<open>
  Total = clamp(sitScore + riseScore, 2, 10), rounded to 2 decimals, of the sit and rise
  scores of the report.
\<close>

definition spec_totalScore :: "jsnum \<Rightarrow> jsnum \<Rightarrow> jsnum" where
  "spec_totalScore sit rise =
     dbl (toFixed2 (Math_max (Fin 2) (Math_min (Fin 10) (dadd sit rise))))"

text \<open>
  The penalty of a phase is taken over the union of the support types of the phase's frames,
  the phases being the two slices of the frame sequence at the transition.
\<close>

definition spec_supportPenalty :: "support list list \<Rightarrow> nat \<Rightarrow> support_penalty" where
  "spec_supportPenalty supportPoints t =
     \<lparr>sitting = calculatePhasePenalty (sittingSlice supportPoints t),
      rising = calculatePhasePenalty (risingSlice supportPoints t)\<rparr>"

text \<open>
  The penalty of a set of support types: 1.0 for \<open>HAND\<close> plus 0.5 for \<open>KNEE\<close>.
\<close>

definition penaltyOf :: "support set \<Rightarrow> real" where
  "penaltyOf u = (if HAND \<in> u then 1 else 0) + (if KNEE \<in> u then 0.5 else 0)"

text \<open>
  The hip keypoints of the poses at \<open>i - 1\<close>, \<open>i\<close> and \<open>i + 1\<close> all have sufficient
  confidence.
\<close>

definition hipTriple :: "pose list \<Rightarrow> nat \<Rightarrow> bool" where
  "hipTriple ps i =
     (confident (find_keypoint (ps ! (i - 1)) ''right_hip'')
      \<and> confident (find_keypoint (ps ! i) ''right_hip'')
      \<and> confident (find_keypoint (ps ! (i + 1)) ''right_hip''))"

text \<open>
  A composite index from the pooled per-frame values: their mean, or 0.3 when fewer than 3
  exist, clamped to \<open>[0, 1]\<close>. \<open>finiteValues\<close> keeps the finite entries of a list of
  numbers, \<open>finiteOrNaN\<close> holds of every number but the two infinities.
\<close>

fun finiteOrNaN :: "jsnum \<Rightarrow> bool" where
  "finiteOrNaN (Fin a) = True"
| "finiteOrNaN NaN = True"
| "finiteOrNaN _ = False"

fun finiteValues :: "jsnum list \<Rightarrow> real list" where
  "finiteValues [] = []"
| "finiteValues (Fin a # vs) = a # finiteValues vs"
| "finiteValues (_ # vs) = finiteValues vs"

definition pooledIndex :: "real list \<Rightarrow> real" where
  "pooledIndex vs =
     max 0 (min 1 (if 3 \<le> length vs then sum_list vs / real (length vs) else 0.3))"

section \<open>Example poses\<close>

text \<open>
  A pose in image coordinates, where \<open>y\<close> grows downward: the shoulder above the hip, the hip
  above the knee, the knee above the ankle.
\<close>

definition standing_pose :: pose where
  "standing_pose =
     \<lparr>keypoints =
        [\<lparr>kp_name = ''right_shoulder'', kp_x = Fin 100, kp_y = Fin 100, kp_score = Fin 0.9\<rparr>,
         \<lparr>kp_name = ''right_hip'', kp_x = Fin 100, kp_y = Fin 200, kp_score = Fin 0.9\<rparr>,
         \<lparr>kp_name = ''right_knee'', kp_x = Fin 100, kp_y = Fin 300, kp_score = Fin 0.9\<rparr>,
         \<lparr>kp_name = ''right_ankle'', kp_x = Fin 100, kp_y = Fin 400, kp_score = Fin 0.9\<rparr>],
      pose_width = Fin 200, pose_height = Fin 500\<rparr>"




text \<open>A pose whose hip keypoint has confidence 0.1.\<close>

definition low_confidence_hip_pose :: pose where
  "low_confidence_hip_pose =
     \<lparr>keypoints =
        [\<lparr>kp_name = ''right_shoulder'', kp_x = Fin (- 10), kp_y = Fin 0, kp_score = Fin 0.9\<rparr>,
         \<lparr>kp_name = ''right_hip'', kp_x = Fin 0, kp_y = Fin 0, kp_score = Fin 0.1\<rparr>,
         \<lparr>kp_name = ''right_knee'', kp_x = Fin 0, kp_y = Fin 10, kp_score = Fin 0.9\<rparr>,
         \<lparr>kp_name = ''right_ankle'', kp_x = Fin 10, kp_y = Fin 10, kp_score = Fin 0.9\<rparr>],
      pose_width = Fin 200, pose_height = Fin 200\<rparr>"

text \<open>A pose in which no keypoint was found.\<close>

definition empty_pose :: pose where
  "empty_pose = \<lparr>keypoints = [], pose_width = Fin 200, pose_height = Fin 200\<rparr>"

text \<open>
  Twenty poses with a confident hip that sinks until frame 12 and then rises twice as fast.
\<close>

definition hipPose :: "real \<Rightarrow> pose" where
  "hipPose v =
     \<lparr>keypoints =
        [\<lparr>kp_name = ''right_hip'', kp_x = Fin 100, kp_y = Fin v, kp_score = Fin 0.9\<rparr>],
      pose_width = Fin 200, pose_height = Fin 400\<rparr>"


text \<open>
  Thirty poses with a confident hip that sinks until frame 25 and then rises quickly; in frame
  17 the right wrist is seen at the height of the hip.
\<close>

definition handPose :: "real \<Rightarrow> pose" where
  "handPose v =
     \<lparr>keypoints =
        [\<lparr>kp_name = ''right_hip'', kp_x = Fin 100, kp_y = Fin v, kp_score = Fin 0.9\<rparr>,
         \<lparr>kp_name = ''right_wrist'', kp_x = Fin 120, kp_y = Fin v, kp_score = Fin 0.9\<rparr>],
      pose_width = Fin 200, pose_height = Fin 400\<rparr>"

definition hand_while_sitting :: "pose list" where
  "hand_while_sitting =
     map hipPose
       [100, 104, 108, 112, 116, 120, 124, 128, 132, 136, 140, 144, 148, 152, 156, 160, 164]
     @ [handPose 168]
     @ map hipPose [172, 176, 180, 184, 188, 192, 196, 200, 170, 140, 110, 80]"

text \<open>Per-frame metrics that all carry the same score.\<close>

definition sittingFrameWith :: "jsnum \<Rightarrow> sitting_frame" where
  "sittingFrameWith v =
     \<lparr>kneeFlexion = \<lparr>angle = Fin 0, score = v\<rparr>,
      hipControl = \<lparr>angle = Fin 0, score = v\<rparr>,
      spinalAlignment = \<lparr>angle = Fin 0, score = v\<rparr>\<rparr>"

definition risingFrameWith :: "jsnum \<Rightarrow> rising_frame" where
  "risingFrameWith v =
     \<lparr>kneeExtension = \<lparr>angle = Fin 0, score = v\<rparr>,
      hipDrive = \<lparr>angle = Fin 0, score = v\<rparr>,
      stability = \<lparr>deviation = Fin 0, dev_score = v\<rparr>\<rparr>"

text \<open>
  A pose estimator that detects the empty pose in every frame but frame 5, where it detects
  nothing.
\<close>

definition missing_detection :: "nat \<Rightarrow> pose option" where
  "missing_detection i = (if i = 5 then None else Some empty_pose)"

section \<open>Auxiliary lemmas\<close>

subsection \<open>Arithmetic on finite numbers\<close>

declare calculateAngle.simps [simp del]

lemma minus_Fin [simp]: "Fin a - Fin b = Fin (a - b)"
  by (simp add: minus_jsnum_def)

lemma Math_max_Fin [simp]: "Math_max (Fin a) (Fin b) = Fin (max a b)"
  by (simp add: Math_max_def max_def)

lemma Math_min_Fin [simp]: "Math_min (Fin a) (Fin b) = Fin (min a b)"
  by (simp add: Math_min_def min_def)

subsection \<open>The angle of three points with finite coordinates\<close>

lemma atan2_bounds: "- pi < atan2 b a \<and> atan2 b a \<le> pi"
proof -
  have l: "- (pi / 2) < arctan (b / a)" and u: "arctan (b / a) < pi / 2"
    by (rule arctan_lbound, rule arctan_ubound)
  have p: "0 < pi" by simp
  consider "0 < a" | "a < 0" "0 \<le> b" | "a < 0" "b < 0" | "a = 0" by linarith
  then show ?thesis
  proof cases
    case 1
    then have "atan2 b a = arctan (b / a)" by (simp add: atan2_def)
    with l u p show ?thesis by linarith
  next
    case 2
    then have e: "atan2 b a = arctan (b / a) + pi" by (simp add: atan2_def)
    from 2 have "b / a \<le> 0" by (simp add: divide_nonneg_neg)
    then have "arctan (b / a) \<le> 0" by (simp add: arctan_le_zero_iff)
    with e l p show ?thesis by linarith
  next
    case 3
    then have e: "atan2 b a = arctan (b / a) - pi" by (simp add: atan2_def)
    from 3 have "0 < b / a" by (simp add: divide_neg_neg)
    then have "0 < arctan (b / a)" by (simp add: zero_less_arctan_iff)
    with e u p show ?thesis by linarith
  next
    case 4
    have "- (pi / 2) \<le> pi" using p by linarith
    with 4 p show ?thesis by (simp add: atan2_def)
  qed
qed

lemma angle_real_bound:
  "\<bar>atan2 b a - atan2 d c\<bar> * 180 / pi < 360"
proof -
  have "\<bar>atan2 b a - atan2 d c\<bar> < 2 * pi"
    using atan2_bounds [of b a] atan2_bounds [of d c] by (simp add: abs_less_iff)
  then have "\<bar>atan2 b a - atan2 d c\<bar> * 180 < 360 * pi" by simp
  then show ?thesis by (simp add: pos_divide_less_eq)
qed

lemma clamp_angle_Fin:
  "0 \<le> v \<Longrightarrow> v < 360 \<Longrightarrow> Math_min (Fin 360) (Math_max (Fin 0) (Fin v)) = Fin v"
  by simp

lemma degrees_Fin: "abs (Fin r * Fin 180 / Fin pi) = Fin (\<bar>r\<bar> * 180 / pi)"
  by (simp add: abs_mult)

lemma validatePoints_Fin:
  assumes "kp_x p1 = Fin x1" "kp_y p1 = Fin y1" "kp_x p2 = Fin x2" "kp_y p2 = Fin y2"
    "kp_x p3 = Fin x3" "kp_y p3 = Fin y3"
  shows "validatePoints (Some p1) (Some p2) (Some p3) =
     (\<not> (sqrt ((x2 - x1)\<^sup>2 + (y2 - y1)\<^sup>2) < 1 \<or> sqrt ((x3 - x2)\<^sup>2 + (y3 - y2)\<^sup>2) < 1))"
proof -
  have nn: "\<not> (x2 - x1) * (x2 - x1) + (y2 - y1) * (y2 - y1) < 0"
    "\<not> (x3 - x2) * (x3 - x2) + (y3 - y2) * (y3 - y2) < 0"
    by (simp_all add: not_less)
  show ?thesis
    using nn by (simp add: assms Math_pow2_def power2_eq_square Let_def)
qed

declare validatePoints.simps [simp del]

lemma calculateAngle_Fin:
  assumes "kp_x p1 = Fin x1" "kp_y p1 = Fin y1" "kp_x p2 = Fin x2" "kp_y p2 = Fin y2"
    "kp_x p3 = Fin x3" "kp_y p3 = Fin y3"
  shows "calculateAngle (Some p1) (Some p2) (Some p3) =
     (if sqrt ((x2 - x1)\<^sup>2 + (y2 - y1)\<^sup>2) < 1 \<or> sqrt ((x3 - x2)\<^sup>2 + (y3 - y2)\<^sup>2) < 1
      then Fin 0
      else Fin (\<bar>atan2 (y3 - y2) (x3 - x2) - atan2 (y1 - y2) (x1 - x2)\<bar> * 180 / pi))"
proof -
  let ?r = "atan2 (y3 - y2) (x3 - x2) - atan2 (y1 - y2) (x1 - x2)"
  have v: "validatePoints (Some p1) (Some p2) (Some p3) =
     (\<not> (sqrt ((x2 - x1)\<^sup>2 + (y2 - y1)\<^sup>2) < 1 \<or> sqrt ((x3 - x2)\<^sup>2 + (y3 - y2)\<^sup>2) < 1))"
    by (rule validatePoints_Fin [OF assms])
  have r: "Math_atan2 (kp_y p3 - kp_y p2) (kp_x p3 - kp_x p2)
             - Math_atan2 (kp_y p1 - kp_y p2) (kp_x p1 - kp_x p2) = Fin ?r"
    by (simp add: assms)
  have c: "Math_min (Fin 360) (Math_max (Fin 0) (Fin (\<bar>?r\<bar> * 180 / pi))) = Fin (\<bar>?r\<bar> * 180 / pi)"
    by (rule clamp_angle_Fin) (simp, rule angle_real_bound)
  show ?thesis
    unfolding calculateAngle.simps v r Let_def degrees_Fin c by simp
qed

lemma calculateAngle_points:
  "calculateAngle
     (Some \<lparr>kp_name = n1, kp_x = Fin x1, kp_y = Fin y1, kp_score = s1\<rparr>)
     (Some \<lparr>kp_name = n2, kp_x = Fin x2, kp_y = Fin y2, kp_score = s2\<rparr>)
     (Some \<lparr>kp_name = n3, kp_x = Fin x3, kp_y = Fin y3, kp_score = s3\<rparr>) =
     (if sqrt ((x2 - x1)\<^sup>2 + (y2 - y1)\<^sup>2) < 1 \<or> sqrt ((x3 - x2)\<^sup>2 + (y3 - y2)\<^sup>2) < 1
      then Fin 0
      else Fin (\<bar>atan2 (y3 - y2) (x3 - x2) - atan2 (y1 - y2) (x1 - x2)\<bar> * 180 / pi))"
  by (rule calculateAngle_Fin) simp_all

subsection \<open>Hip drive ingredients\<close>

lemmas config_defs = KEYPOINT_CONFIDENCE_THRESHOLD_def DEFAULT_HIP_DRIVE_def MAX_SCORE_def
  MIN_PHASE_SCORE_def PENALTY_FACTOR_def

lemma less_imp_diff_le_zero: "(a::jsnum) < b \<Longrightarrow> a - b \<le> Fin 0"
  by (cases a; cases b) (simp_all add: minus_jsnum_def)

lemma safeScore_range:
  "0 \<le> d \<Longrightarrow> d \<le> 1 \<Longrightarrow> \<exists>r. safeScore v (Fin d) = Fin r \<and> 0 \<le> r \<and> r \<le> 1"
  by (cases v) (simp_all add: safeScore_def isValidScore_def)

lemma confident_Some: "confident k \<Longrightarrow> \<exists>v. k = Some v"
  by (cases k) simp_all




subsection \<open>Rounding to a double\<close>

text \<open>
  The binade is the floor of the binary logarithm, cut at \<open>-1022\<close>. Rounding to the nearest
  double is odd and monotone; \<open>fl_eval\<close> evaluates it at a number whose binade is known, and
  \<open>fl_exact\<close> says that a number with a significand of 53 bits is its own rounding.
\<close>

lemma roundEven_of_int: "roundEven (of_int n) = n"
  by (simp add: roundEven_def)

lemma roundEven_bounds: "\<lfloor>v\<rfloor> \<le> roundEven v" "roundEven v \<le> \<lfloor>v\<rfloor> + 1"
  by (simp_all add: roundEven_def Let_def)

lemma roundEven_mono:
  assumes "v \<le> w"
  shows "roundEven v \<le> roundEven w"
proof (cases "\<lfloor>v\<rfloor> = \<lfloor>w\<rfloor>")
  case True
  have "v - of_int \<lfloor>w\<rfloor> \<le> w - of_int \<lfloor>w\<rfloor>" using assms by simp
  then show ?thesis
    unfolding roundEven_def Let_def True by auto
next
  case False
  then have "\<lfloor>v\<rfloor> < \<lfloor>w\<rfloor>"
    using floor_mono [OF assms] by linarith
  then show ?thesis
    using roundEven_bounds(2) [of v] roundEven_bounds(1) [of w] by linarith
qed

lemma roundEven_uminus: "roundEven (- v) = - roundEven v"
proof (cases "v = of_int \<lfloor>v\<rfloor>")
  case True
  then obtain n where "v = of_int n" ..
  then have "- v = of_int (- n)" by simp
  then show ?thesis
    unfolding \<open>v = of_int n\<close> by (metis roundEven_of_int)
next
  case False
  let ?n = "\<lfloor>v\<rfloor>"
  have lt: "of_int ?n < v" "v < of_int ?n + 1"
    using False by linarith+
  have a: "of_int (- ?n - 1) \<le> - v"
    using lt(2) by linarith
  have b: "- v < of_int (- ?n - 1) + 1"
    using lt(1) by linarith
  have f: "\<lfloor>- v\<rfloor> = - ?n - 1"
    by (rule floor_unique [OF a b])
  show ?thesis
    using lt unfolding roundEven_def Let_def f by (auto simp add: algebra_simps)
qed

lemma binadeUp_log: "1 \<le> a \<Longrightarrow> binadeUp a e = e + \<lfloor>log 2 a\<rfloor>"
proof (induction a e rule: binadeUp.induct)
  case (1 a e)
  show ?case
  proof (cases "2 \<le> a")
    case True
    then have "binadeUp (a / 2) (e + 1) = e + 1 + \<lfloor>log 2 (a / 2)\<rfloor>"
      by (intro 1) simp_all
    moreover have "log 2 (a / 2) = log 2 a - 1"
      using True by (simp add: log_divide)
    ultimately show ?thesis
      using True by (subst binadeUp.simps) simp
  next
    case False
    then have "0 \<le> log 2 a" "log 2 a < 1"
      using 1(2) by (simp_all add: log_less_iff)
    then have "\<lfloor>log 2 a\<rfloor> = 0"
      by (simp add: floor_eq_iff)
    then show ?thesis
      using False by (subst binadeUp.simps) simp
  qed
qed

lemma binadeDown_log:
  "0 < a \<Longrightarrow> a < 1 \<Longrightarrow> binadeDown n a e = e + max \<lfloor>log 2 a\<rfloor> (- int n)"
proof (induction n arbitrary: a e)
  case 0
  then have "log 2 a < 0"
    by simp
  then have "\<lfloor>log 2 a\<rfloor> < 0"
    by (simp add: floor_less_iff)
  then show ?case
    by simp
next
  case (Suc n)
  have l: "log 2 (a * 2) = log 2 a + 1"
    using Suc.prems by (simp add: log_mult)
  show ?case
  proof (cases "a * 2 < 1")
    case True
    then have "binadeDown n (a * 2) (e - 1) = e - 1 + max \<lfloor>log 2 (a * 2)\<rfloor> (- int n)"
      using Suc.prems by (intro Suc.IH) simp_all
    then show ?thesis
      using Suc.prems unfolding l by (simp add: max_def)
  next
    case False
    then have "0 \<le> log 2 (a * 2)" "log 2 a < 0"
      using Suc.prems by simp_all
    then have "\<lfloor>log 2 a\<rfloor> = - 1"
      unfolding l by (simp add: floor_eq_iff)
    moreover have "binadeDown n (a * 2) (e - 1) = e - 1"
      using False by (cases n) simp_all
    ultimately show ?thesis
      using Suc.prems by (simp add: max_def)
  qed
qed

lemma binade_log: "x \<noteq> 0 \<Longrightarrow> binade x = max \<lfloor>log 2 \<bar>x\<bar>\<rfloor> (- 1022)"
proof (cases "1 \<le> \<bar>x\<bar>")
  case True
  then have "0 \<le> log 2 \<bar>x\<bar>"
    by simp
  then have "0 \<le> \<lfloor>log 2 \<bar>x\<bar>\<rfloor>"
    by simp
  then have "max \<lfloor>log 2 \<bar>x\<bar>\<rfloor> (- 1022) = \<lfloor>log 2 \<bar>x\<bar>\<rfloor>"
    by linarith
  then show ?thesis
    using True by (simp only: binade_def binadeUp_log if_True)
next
  case False
  assume "x \<noteq> 0"
  then show ?thesis
    using False binadeDown_log [of "\<bar>x\<bar>" 1022 0] by (simp add: binade_def)
qed

lemma binadeDown_zero: "binadeDown n 0 e = e - int n"
  by (induction n arbitrary: e) simp_all

lemma binade_zero: "binade 0 = - 1022"
  by (simp add: binade_def binadeDown_zero)

lemma binade_ge: "- 1022 \<le> binade x"
  by (cases "x = 0") (simp_all add: binade_zero binade_log)

lemma binade_uminus: "binade (- x) = binade x"
  by (simp add: binade_def)

lemma binade_upper:
  assumes "x \<noteq> 0"
  shows "\<bar>x\<bar> < 2 powi (binade x + 1)"
proof -
  let ?k = "\<lfloor>log 2 \<bar>x\<bar>\<rfloor>"
  have "\<bar>x\<bar> < 2 powr (?k + 1)"
    using floor_log_eq_powr_iff [of "\<bar>x\<bar>" 2 ?k] assms by simp
  then have "\<bar>x\<bar> < 2 powi (?k + 1)"
    using powr_real_of_int' [of 2 "?k + 1"] by simp
  also have "\<dots> \<le> 2 powi (binade x + 1)"
    by (intro power_int_increasing) (simp_all add: binade_log [OF assms])
  finally show ?thesis .
qed

lemma binade_lower:
  assumes "x \<noteq> 0" "- 1022 < binade x"
  shows "2 powi binade x \<le> \<bar>x\<bar>"
proof -
  let ?k = "\<lfloor>log 2 \<bar>x\<bar>\<rfloor>"
  have k: "binade x = ?k"
    using assms(2) by (simp add: binade_log [OF assms(1)] max_def split: if_splits)
  have "2 powr ?k \<le> \<bar>x\<bar>"
    using floor_log_eq_powr_iff [of "\<bar>x\<bar>" 2 ?k] assms(1) by simp
  then show ?thesis
    using powr_real_of_int' [of 2 ?k] k by simp
qed

lemma binade_eq:
  assumes "2 powi e \<le> \<bar>x\<bar>" "\<bar>x\<bar> < 2 powi (e + 1)" "- 1022 \<le> e"
  shows "binade x = e"
proof -
  have "(0::real) < 2 powi e"
    by simp
  then have pos: "0 < \<bar>x\<bar>"
    using assms(1) by linarith
  have "2 powr e \<le> \<bar>x\<bar>" "\<bar>x\<bar> < 2 powr (e + 1)"
    using assms(1,2) powr_real_of_int' [of 2 e] powr_real_of_int' [of 2 "e + 1"] by simp_all
  then have "\<lfloor>log 2 \<bar>x\<bar>\<rfloor> = e"
    using floor_log_eq_powr_iff [of "\<bar>x\<bar>" 2 e] pos by simp
  moreover have "x \<noteq> 0"
    using pos by simp
  ultimately show ?thesis
    using assms(3) by (simp add: binade_log)
qed

lemma binade_mono:
  assumes "0 < x" "x \<le> y"
  shows "binade x \<le> binade y"
proof -
  have "log 2 \<bar>x\<bar> \<le> log 2 \<bar>y\<bar>"
    using assms by simp
  then have "\<lfloor>log 2 \<bar>x\<bar>\<rfloor> \<le> \<lfloor>log 2 \<bar>y\<bar>\<rfloor>"
    by (rule floor_mono)
  moreover have "x \<noteq> 0" "y \<noteq> 0"
    using assms by simp_all
  ultimately show ?thesis
    by (simp add: binade_log)
qed

lemma fl_uminus: "fl (- x) = - fl x"
  by (simp add: fl_def binade_uminus roundEven_uminus)

lemma fl_upper:
  assumes "0 < x"
  shows "fl x \<le> 2 powi (binade x + 1)"
proof -
  let ?u = "2 powi (binade x - 52) :: real"
  have u: "0 < ?u" by simp
  have "x < 2 powi (binade x + 1)"
    using binade_upper [of x] assms by simp
  also have "(2::real) powi (binade x + 1) = 2 powi 53 * ?u"
    using power_int_add [of "2::real" 53 "binade x - 52"] by (simp add: algebra_simps)
  finally have "x / ?u \<le> of_int (2 ^ 53)"
    using u by (simp add: pos_divide_le_eq)
  then have "roundEven (x / ?u) \<le> 2 ^ 53"
    using roundEven_mono [of "x / ?u" "of_int (2 ^ 53)"] by (simp only: roundEven_of_int)
  then have "of_int (roundEven (x / ?u)) * ?u \<le> of_int (2 ^ 53) * ?u"
    using u by (intro mult_right_mono) simp_all
  also have "\<dots> = 2 powi (binade x + 1)"
    using power_int_add [of "2::real" 53 "binade x - 52"] by (simp add: algebra_simps)
  finally show ?thesis
    using assms by (simp add: fl_def)
qed

lemma fl_lower:
  assumes "0 < x" "- 1022 < binade x"
  shows "2 powi binade x \<le> fl x"
proof -
  let ?u = "2 powi (binade x - 52) :: real"
  have u: "0 < ?u" by simp
  have e: "(2::real) powi binade x = 2 powi 52 * ?u"
    using power_int_add [of "2::real" 52 "binade x - 52"] by (simp add: algebra_simps)
  have "2 powi binade x \<le> x"
    using binade_lower [of x] assms by simp
  then have "of_int (2 ^ 52) \<le> x / ?u"
    using u unfolding e by (simp add: pos_le_divide_eq)
  then have "2 ^ 52 \<le> roundEven (x / ?u)"
    using roundEven_mono [of "of_int (2 ^ 52)" "x / ?u"] by (simp only: roundEven_of_int)
  then have "of_int (2 ^ 52) * ?u \<le> of_int (roundEven (x / ?u)) * ?u"
    using u by (intro mult_right_mono) simp_all
  then show ?thesis
    using assms(1) unfolding e by (simp add: fl_def)
qed

lemma fl_nonneg:
  assumes "0 \<le> x"
  shows "0 \<le> fl x"
proof (cases "x = 0")
  case True
  then show ?thesis by (simp add: fl_def)
next
  case False
  let ?u = "2 powi (binade x - 52) :: real"
  have z: "roundEven 0 = 0"
    by (simp add: roundEven_def)
  have "0 \<le> x / ?u" using assms by simp
  then have "roundEven 0 \<le> roundEven (x / ?u)"
    by (rule roundEven_mono)
  then have "0 \<le> roundEven (x / ?u)"
    unfolding z .
  then show ?thesis
    using False by (simp add: fl_def)
qed

lemma fl_mono_pos:
  assumes "0 < x" "x \<le> y"
  shows "fl x \<le> fl y"
proof (cases "binade x = binade y")
  case True
  let ?u = "2 powi (binade y - 52) :: real"
  have "x / ?u \<le> y / ?u"
    using assms(2) by (simp add: divide_right_mono)
  then have "roundEven (x / ?u) \<le> roundEven (y / ?u)"
    by (rule roundEven_mono)
  then have "of_int (roundEven (x / ?u)) * ?u \<le> of_int (roundEven (y / ?u)) * ?u"
    by (intro mult_right_mono) simp_all
  then show ?thesis
    using assms True by (simp add: fl_def)
next
  case False
  then have lt: "binade x < binade y"
    using binade_mono [OF assms] by linarith
  have y: "0 < y" "- 1022 < binade y"
    using assms lt binade_ge [of x] by linarith+
  have "fl x \<le> 2 powi (binade x + 1)"
    by (rule fl_upper [OF assms(1)])
  also have "\<dots> \<le> 2 powi binade y"
    using lt by (intro power_int_increasing) simp_all
  also have "\<dots> \<le> fl y"
    by (rule fl_lower [OF y])
  finally show ?thesis .
qed

lemma fl_mono:
  assumes "x \<le> y"
  shows "fl x \<le> fl y"
proof -
  consider "0 < x" | "y < 0" | "x \<le> 0" "0 \<le> y" by linarith
  then show ?thesis
  proof cases
    case 1
    then show ?thesis using assms by (rule fl_mono_pos)
  next
    case 2
    then have "fl (- y) \<le> fl (- x)"
      using assms by (intro fl_mono_pos) simp_all
    then show ?thesis by (simp add: fl_uminus)
  next
    case 3
    have "0 \<le> fl (- x)" using 3(1) by (intro fl_nonneg) simp
    then have "fl x \<le> 0" by (simp add: fl_uminus)
    also have "0 \<le> fl y" using 3(2) by (rule fl_nonneg)
    finally show ?thesis .
  qed
qed

lemma fl_eval:
  assumes "2 powi e \<le> \<bar>x\<bar>" "\<bar>x\<bar> < 2 powi (e + 1)" "- 1022 \<le> e"
    and "roundEven (x / 2 powi (e - 52)) = n"
  shows "fl x = of_int n * 2 powi (e - 52)"
proof -
  have "(0::real) < 2 powi e"
    by simp
  then have "0 < \<bar>x\<bar>"
    using assms(1) by linarith
  then have "x \<noteq> 0"
    by simp
  then show ?thesis
    by (simp add: fl_def binade_eq [OF assms(1-3)] assms(4))
qed

lemma fl_exact:
  assumes "2 ^ 52 \<le> \<bar>k\<bar>" "\<bar>k\<bar> < 2 ^ 53" "- 1022 \<le> e"
  shows "fl (of_int k * 2 powi (e - 52)) = of_int k * 2 powi (e - 52)"
proof -
  have p: "(0::real) < 2 powi (e - 52)"
    by simp
  have s: "(2::real) powi e = 2 ^ 52 * 2 powi (e - 52)"
    "(2::real) powi (e + 1) = 2 ^ 53 * 2 powi (e - 52)"
    by (simp_all add: power_int_diff power_int_add)
  have k: "(2::real) ^ 52 \<le> \<bar>of_int k\<bar>" "\<bar>of_int k :: real\<bar> < 2 ^ 53"
    using assms(1,2) by (simp_all flip: of_int_abs add: of_int_le_numeral_power_cancel_iff)
  have a: "2 powi e \<le> \<bar>of_int k * 2 powi (e - 52) :: real\<bar>"
    unfolding s abs_mult using k(1) p by (simp add: mult_right_mono)
  have b: "\<bar>of_int k * 2 powi (e - 52) :: real\<bar> < 2 powi (e + 1)"
    unfolding s abs_mult using k(2) p by (simp add: mult_strict_right_mono)
  have r: "roundEven (of_int k * 2 powi (e - 52) / 2 powi (e - 52)) = k"
    by (simp add: roundEven_of_int)
  show ?thesis
    by (rule fl_eval [OF a b assms(3) r])
qed

lemma fl_abs_le:
  assumes "fl c = c" "\<bar>a\<bar> \<le> c"
  shows "\<bar>fl a\<bar> \<le> c"
proof -
  have "fl a \<le> fl c" "fl (- c) \<le> fl a"
    using assms(2) by (intro fl_mono; linarith)+
  then show ?thesis
    unfolding fl_uminus assms(1) by linarith
qed

lemma fl_zero: "fl 0 = 0"
  by (simp add: fl_def)


lemma fl_7_20: "fl (7 / 20) = 3152519739159347 / 9007199254740992"
  by (rule trans [OF fl_eval [where e = "-2" and n = 6305039478318694]])
     (simp_all add: roundEven_def)

lemma fl_3_2: "fl (3 / 2) = 3 / 2"
  by (rule trans [OF fl_eval [where e = 0 and n = 6755399441055744]])
     (simp_all add: roundEven_def)

lemma fl_3_10: "fl (3 / 10) = 5404319552844595 / 18014398509481984"
  by (rule trans [OF fl_eval [where e = "-2" and n = 5404319552844595]])
     (simp_all add: roundEven_def)

lemma fl_2_5: "fl (2 / 5) = 3602879701896397 / 9007199254740992"
  by (rule trans [OF fl_eval [where e = "-2" and n = 7205759403792794]])
     (simp_all add: roundEven_def)

lemma fl_3_5: "fl (3 / 5) = 5404319552844595 / 9007199254740992"
  by (rule trans [OF fl_eval [where e = "-1" and n = 5404319552844595]])
     (simp_all add: roundEven_def)

lemma fl_3: "fl 3 = 3"
  by (rule trans [OF fl_eval [where e = 1 and n = 6755399441055744]])
     (simp_all add: roundEven_def)

lemma fl_5: "fl 5 = 5"
  by (rule trans [OF fl_eval [where e = 2 and n = 5629499534213120]])
     (simp_all add: roundEven_def)

lemma fl_10: "fl 10 = 10"
  by (rule trans [OF fl_eval [where e = 3 and n = 5629499534213120]])
     (simp_all add: roundEven_def)

text \<open>
  Overflow: a rounded magnitude below \<open>2 ^ 1024\<close> is a finite double. The product of a finite
  double and one of the weights, and the sum of two such products, stay below that bound.
\<close>

lemma fl_overflow: "fl (2 ^ 1024) = 2 ^ 1024"
  using fl_exact [of "2 ^ 52" 1024] by (simp add: power_int_def flip: power_add)

lemma fl_bound_7_16: "fl (7 * 2 ^ 1020) = 7 * 2 ^ 1020"
  using fl_exact [of "7 * 2 ^ 50" 1022] by (simp add: power_int_def)

lemma fl_bound_7_8: "fl (7 * 2 ^ 1021) = 7 * 2 ^ 1021"
  using fl_exact [of "7 * 2 ^ 50" 1023] by (simp add: power_int_def)

lemma fl_bound_5_8: "fl (5 * 2 ^ 1021) = 5 * 2 ^ 1021"
  using fl_exact [of "5 * 2 ^ 50" 1023] by (simp add: power_int_def)

lemma dbl_bounded:
  assumes "\<bar>fl a\<bar> < 2 ^ 1024"
  shows "dbl (Fin a) = Fin (fl a)"
proof -
  have "\<not> 2 ^ 1024 \<le> fl a" "\<not> fl a \<le> - (2 ^ 1024)"
    using assms by linarith+
  then show ?thesis
    by (simp only: dbl.simps if_False)
qed

lemma dmul_weight:
  assumes "\<bar>a\<bar> < 2 ^ 1024" "0 \<le> w" "w \<le> 7 / 16"
  shows "dmul (Fin a) (Fin w) = Fin (fl (a * w))" "\<bar>fl (a * w)\<bar> \<le> 7 * 2 ^ 1020"
proof -
  have "\<bar>a * w\<bar> = \<bar>a\<bar> * w"
    using assms(2) by (simp add: abs_mult)
  also have "\<dots> \<le> 2 ^ 1024 * (7 / 16)"
    using assms by (intro mult_mono) simp_all
  finally have "\<bar>a * w\<bar> \<le> 7 * 2 ^ 1020"
    by simp
  then show b: "\<bar>fl (a * w)\<bar> \<le> 7 * 2 ^ 1020"
    by (rule fl_abs_le [OF fl_bound_7_16])
  have "\<bar>fl (a * w)\<bar> < 2 ^ 1024"
    using b by simp
  then show "dmul (Fin a) (Fin w) = Fin (fl (a * w))"
    unfolding dmul_def times_jsnum.simps by (rule dbl_bounded)
qed

lemma dmul_factor:
  assumes "\<bar>a\<bar> < 2 ^ 1024" "0 \<le> w" "w \<le> 5 / 8"
  shows "dmul (Fin a) (Fin w) = Fin (fl (a * w))" "\<bar>fl (a * w)\<bar> \<le> 5 * 2 ^ 1021"
proof -
  have "\<bar>a * w\<bar> = \<bar>a\<bar> * w"
    using assms(2) by (simp add: abs_mult)
  also have "\<dots> \<le> 2 ^ 1024 * (5 / 8)"
    using assms by (intro mult_mono) simp_all
  finally have "\<bar>a * w\<bar> \<le> 5 * 2 ^ 1021"
    by simp
  then show b: "\<bar>fl (a * w)\<bar> \<le> 5 * 2 ^ 1021"
    by (rule fl_abs_le [OF fl_bound_5_8])
  have "\<bar>fl (a * w)\<bar> < 2 ^ 1024"
    using b by simp
  then show "dmul (Fin a) (Fin w) = Fin (fl (a * w))"
    unfolding dmul_def times_jsnum.simps by (rule dbl_bounded)
qed

lemma dadd_products:
  assumes "\<bar>x\<bar> \<le> 7 * 2 ^ 1020" "\<bar>y\<bar> \<le> 7 * 2 ^ 1020"
  shows "dadd (Fin x) (Fin y) = Fin (fl (x + y))"
proof -
  have "\<bar>x + y\<bar> \<le> 7 * 2 ^ 1021"
    using assms by simp
  then have "\<bar>fl (x + y)\<bar> \<le> 7 * 2 ^ 1021"
    by (rule fl_abs_le [OF fl_bound_7_8])
  then have "\<bar>fl (x + y)\<bar> < 2 ^ 1024"
    by simp
  then show ?thesis
    unfolding dadd_def plus_jsnum.simps by (rule dbl_bounded)
qed

subsection \<open>The phase scores in double precision\<close>

text \<open>
  The third addition, the multiplication by 5 and the subtraction of the penalty may overflow
  to an infinity; the clamps that follow take it back to 1.5 or to 5, which is also what the
  formulas on reals give.
\<close>

lemma raw_score_double:
  "Math_max (Fin (3 / 2)) (dmul (dadd (Fin u) (Fin v)) (Fin 5)) =
     (if 2 ^ 1024 \<le> max (3 / 2) (fl (fl (u + v) * 5)) then PInf
      else Fin (max (3 / 2) (fl (fl (u + v) * 5))))"
proof -
  let ?m = "(2::real) ^ 1024"
  have m: "fl ?m = ?m" "fl (- ?m) = - ?m" "0 < ?m" "3 / 2 < ?m"
    by (simp_all only: fl_overflow fl_uminus) simp_all
  consider "?m \<le> fl (u + v)" | "fl (u + v) \<le> - ?m"
    | "\<not> ?m \<le> fl (u + v)" "\<not> fl (u + v) \<le> - ?m"
    by linarith
  then show ?thesis
  proof cases
    case 1
    then have "?m \<le> fl (u + v) * 5"
      using m(3) by linarith
    then have "?m \<le> fl (fl (u + v) * 5)"
      using fl_mono [of ?m "fl (u + v) * 5"] m(1) by simp
    moreover have "dadd (Fin u) (Fin v) = PInf"
      using 1 by (simp only: dadd_def plus_jsnum.simps dbl.simps if_True)
    ultimately show ?thesis
      using m(4) by (simp add: dmul_def Math_max_def max_def del: power_numeral)
  next
    case 2
    then have "fl (u + v) * 5 \<le> - ?m"
      using m(3) by linarith
    then have "fl (fl (u + v) * 5) \<le> - ?m"
      using fl_mono [of "fl (u + v) * 5" "- ?m"] m(2) by simp
    moreover have "\<not> ?m \<le> fl (u + v)"
      using 2 m(3) by linarith
    then have "dadd (Fin u) (Fin v) = NInf"
      using 2 by (simp add: dadd_def del: power_numeral)
    ultimately show ?thesis
      using m(3,4) by (simp add: dmul_def Math_max_def max_def del: power_numeral)
  next
    case 3
    then have a: "dadd (Fin u) (Fin v) = Fin (fl (u + v))"
      by (simp add: dadd_def del: power_numeral)
    show ?thesis
      unfolding a using m(3,4)
      by (simp add: dmul_def Math_max_def max_def del: power_numeral)
  qed
qed

lemma penalized_score_double:
  assumes "\<bar>q\<bar> \<le> 5 * 2 ^ 1021" "3 / 2 \<le> r"
  shows "Math_max (Fin (3 / 2))
           (Math_min (Fin 5) (dsub (if 2 ^ 1024 \<le> r then PInf else Fin r) (Fin q))) =
         Fin (max (3 / 2) (min 5 (fl (r - q))))"
proof -
  let ?m = "(2::real) ^ 1024"
  have m: "fl ?m = ?m" "fl (- ?m) = - ?m" "16 < ?m"
    by (simp_all only: fl_overflow fl_uminus) simp_all
  have q: "\<bar>q\<bar> \<le> ?m * (5 / 8)"
    using assms(1) by simp
  show ?thesis
  proof (cases "?m \<le> r")
    case True
    then have "5 \<le> r - q"
      using q m(3) by linarith
    then have "5 \<le> fl (r - q)"
      using fl_mono [of 5 "r - q"] by (simp add: fl_5)
    then show ?thesis
      using True by (simp add: dsub_def minus_jsnum_def Math_min_def del: power_numeral)
  next
    case False
    consider "?m \<le> fl (r - q)" | "fl (r - q) \<le> - ?m"
      | "\<not> ?m \<le> fl (r - q)" "\<not> fl (r - q) \<le> - ?m"
      by linarith
    then show ?thesis
    proof cases
      case 1
      then show ?thesis
        using False m(3)
        by (simp add: dsub_def minus_jsnum_def Math_min_def Math_max_def del: power_numeral)
    next
      case 2
      then show ?thesis
        using False m(3)
        by (simp add: dsub_def minus_jsnum_def Math_min_def Math_max_def del: power_numeral)
    next
      case 3
      then show ?thesis
        using False
        by (simp add: dsub_def minus_jsnum_def del: power_numeral)
    qed
  qed
qed

lemma toFixed2_Fin: "0 \<le> a \<Longrightarrow> a < 10 ^ 21 \<Longrightarrow> toFixed2 (Fin a) = Fin (round2 a)"
  by (cases "a = 0") (simp_all add: round2_def)

lemma round2_mono: "a \<le> b \<Longrightarrow> round2 a \<le> round2 b"
  unfolding round2_def by (intro divide_right_mono of_int_le_iff [THEN iffD2] floor_mono) simp_all

lemma round2_values:
  "round2 0 = 0" "round2 (3 / 2) = 3 / 2" "round2 3 = 3" "round2 5 = 5" "round2 10 = 10"
  by (simp_all add: round2_def)

lemma reported_mono: "a \<le> b \<Longrightarrow> reported a \<le> reported b"
  unfolding reported_def by (intro fl_mono round2_mono)

lemma reported_zero: "reported 0 = 0"
  by (simp add: reported_def round2_values fl_def)

lemma reported_values:
  "reported (3 / 2) = 3 / 2" "reported 3 = 3" "reported 5 = 5" "reported 10 = 10"
  by (simp_all add: reported_def round2_values fl_3_2 fl_3 fl_5 fl_10)

lemma reported_phase_bounds:
  assumes "3 / 2 \<le> v" "v \<le> 5"
  shows "3 / 2 \<le> reported v" "reported v \<le> 5"
  using reported_mono [OF assms(1)] reported_mono [OF assms(2)]
  by (simp_all only: reported_values)

lemma reported_total_bounds:
  assumes "3 \<le> v" "v \<le> 10"
  shows "3 \<le> reported v" "reported v \<le> 10"
  using reported_mono [OF assms(1)] reported_mono [OF assms(2)]
  by (simp_all only: reported_values)

lemma reported_double:
  assumes "0 \<le> v" "v \<le> 10"
  shows "dbl (toFixed2 (Fin v)) = Fin (reported v)"
proof -
  have "reported 0 \<le> reported v" "reported v \<le> reported 10"
    using assms by (simp_all only: reported_mono)
  then have "0 \<le> fl (round2 v)" "fl (round2 v) \<le> 10"
    by (simp_all only: reported_values reported_zero) (simp_all only: reported_def)
  moreover have "(10::real) < 2 ^ 1024"
    by simp
  ultimately have "\<bar>fl (round2 v)\<bar> < 2 ^ 1024"
    by linarith
  then have "dbl (Fin (round2 v)) = Fin (fl (round2 v))"
    by (rule dbl_bounded)
  moreover have "toFixed2 (Fin v) = Fin (round2 v)"
    using assms by (intro toFixed2_Fin) simp_all
  ultimately show ?thesis
    by (simp only: reported_def)
qed

lemma penalizedScore_bounds: "3 / 2 \<le> penalizedScore r q" "penalizedScore r q \<le> 5"
  by (simp_all add: penalizedScore_def)

lemma total_double:
  assumes "3 / 2 \<le> s" "s \<le> 5" "3 / 2 \<le> r" "r \<le> 5"
  shows "dadd (Fin s) (Fin r) = Fin (fl (s + r))" "3 \<le> fl (s + r)" "fl (s + r) \<le> 10"
proof -
  show b: "3 \<le> fl (s + r)" "fl (s + r) \<le> 10"
    using fl_mono [of 3 "s + r"] fl_mono [of "s + r" 10] assms by (simp_all add: fl_3 fl_10)
  then have "\<bar>fl (s + r)\<bar> < 2 ^ 1024"
    by simp
  then show "dadd (Fin s) (Fin r) = Fin (fl (s + r))"
    unfolding dadd_def plus_jsnum.simps by (rule dbl_bounded)
qed

lemma weights_double:
  "dbl (Fin (7 / 20)) = Fin (fl (7 / 20))" "dbl (Fin (3 / 10)) = Fin (fl (3 / 10))"
  "dbl (Fin (2 / 5)) = Fin (fl (2 / 5))" "dbl (Fin (3 / 5)) = Fin (fl (3 / 5))"
  by (rule dbl_bounded, simp add: fl_7_20 fl_3_10 fl_2_5 fl_3_5)+

lemma weights_range:
  "0 \<le> fl (7 / 20)" "fl (7 / 20) \<le> 7 / 16" "0 \<le> fl (3 / 10)" "fl (3 / 10) \<le> 7 / 16"
  "0 \<le> fl (2 / 5)" "fl (2 / 5) \<le> 7 / 16" "0 \<le> fl (3 / 5)" "fl (3 / 5) \<le> 5 / 8"
  by (simp_all add: fl_7_20 fl_3_10 fl_2_5 fl_3_5)

lemma phase_score_double:
  assumes m: "\<bar>m1\<bar> < 2 ^ 1024" "\<bar>m2\<bar> < 2 ^ 1024" "\<bar>m3\<bar> < 2 ^ 1024" and p: "\<bar>p\<bar> < 2 ^ 1024"
    and w1: "0 \<le> fl w1" "fl w1 \<le> 7 / 16" and w2: "0 \<le> fl w2" "fl w2 \<le> 7 / 16"
    and w3: "0 \<le> fl w3" "fl w3 \<le> 7 / 16"
  shows "Math_max (Fin (3 / 2))
           (Math_min (Fin 5)
              (dsub
                 (Math_max (Fin (3 / 2))
                    (dmul
                       (dadd (dadd (dmul (Fin m1) (Fin (fl w1))) (dmul (Fin m2) (Fin (fl w2))))
                             (dmul (Fin m3) (Fin (fl w3))))
                       (Fin 5)))
                 (dmul (Fin p) (Fin (fl (3 / 5)))))) =
         Fin (penalizedScore (rawPhaseScore w1 m1 w2 m2 w3 m3) p)"
proof -
  note p1 = dmul_weight [OF m(1) w1] and p2 = dmul_weight [OF m(2) w2]
    and p3 = dmul_weight [OF m(3) w3] and q = dmul_factor [OF p weights_range(7,8)]
  have r: "3 / 2 \<le> max (3 / 2) (fl (fl (fl (fl (m1 * fl w1) + fl (m2 * fl w2)) + fl (m3 * fl w3)) * 5))"
    by simp
  show ?thesis
    unfolding p1(1) p2(1) p3(1) q(1) dadd_products [OF p1(2) p2(2)] raw_score_double
      penalized_score_double [OF q(2) r]
    by (simp add: penalizedScore_def rawPhaseScore_def)
qed

lemma calculatePhaseScores_Fin:
  assumes "\<bar>kf\<bar> < 2 ^ 1024" "\<bar>hc\<bar> < 2 ^ 1024" "\<bar>sa\<bar> < 2 ^ 1024" "\<bar>ps\<bar> < 2 ^ 1024"
    and "\<bar>ke\<bar> < 2 ^ 1024" "\<bar>dr\<bar> < 2 ^ 1024" "\<bar>sb\<bar> < 2 ^ 1024" "\<bar>pr\<bar> < 2 ^ 1024"
  shows "calculatePhaseScores
     \<lparr>kneeFlexionAvg = Fin kf, hipControlAvg = Fin hc, spinalAlignmentAvg = Fin sa\<rparr>
     \<lparr>kneeExtensionAvg = Fin ke, hipDriveAvg = Fin dr, stabilityAvg = Fin sb\<rparr>
     \<lparr>sitting = Fin ps, rising = Fin pr\<rparr> =
   \<lparr>sitScore = Fin (reported (penalizedScore (rawPhaseScore 0.35 kf 0.35 hc 0.3 sa) ps)),
    riseScore = Fin (reported (penalizedScore (rawPhaseScore 0.3 ke 0.4 dr 0.3 sb) pr)),
    totalScore = Fin (reported (min 10 (fl
        (penalizedScore (rawPhaseScore 0.35 kf 0.35 hc 0.3 sa) ps
         + penalizedScore (rawPhaseScore 0.3 ke 0.4 dr 0.3 sb) pr))))\<rparr>"
proof -
  let ?s = "penalizedScore (rawPhaseScore (7 / 20) kf (7 / 20) hc (3 / 10) sa) ps"
  let ?r = "penalizedScore (rawPhaseScore (3 / 10) ke (2 / 5) dr (3 / 10) sb) pr"
  have s: "3 / 2 \<le> ?s" "?s \<le> 5" and r: "3 / 2 \<le> ?r" "?r \<le> 5"
    by (rule penalizedScore_bounds)+
  note t = total_double [OF s r]
  have s': "Math_max (Fin (3 / 2))
           (Math_min (Fin 5)
              (dsub
                 (Math_max (Fin (3 / 2))
                    (dmul
                       (dadd (dadd (dmul (Fin kf) (Fin (fl (7 / 20)))) (dmul (Fin hc) (Fin (fl (7 / 20)))))
                             (dmul (Fin sa) (Fin (fl (3 / 10)))))
                       (Fin 5)))
                 (dmul (Fin ps) (Fin (fl (3 / 5)))))) = Fin ?s"
    using phase_score_double [OF assms(1,2,3,4) weights_range(1,2,1,2,3,4)] by simp
  have r': "Math_max (Fin (3 / 2))
           (Math_min (Fin 5)
              (dsub
                 (Math_max (Fin (3 / 2))
                    (dmul
                       (dadd (dadd (dmul (Fin ke) (Fin (fl (3 / 10)))) (dmul (Fin dr) (Fin (fl (2 / 5)))))
                             (dmul (Fin sb) (Fin (fl (3 / 10)))))
                       (Fin 5)))
                 (dmul (Fin pr) (Fin (fl (3 / 5)))))) = Fin ?r"
    using phase_score_double [OF assms(5,6,7,8) weights_range(3,4,5,6,3,4)] by simp
  have "calculatePhaseScores
     \<lparr>kneeFlexionAvg = Fin kf, hipControlAvg = Fin hc, spinalAlignmentAvg = Fin sa\<rparr>
     \<lparr>kneeExtensionAvg = Fin ke, hipDriveAvg = Fin dr, stabilityAvg = Fin sb\<rparr>
     \<lparr>sitting = Fin ps, rising = Fin pr\<rparr> =
   \<lparr>sitScore = dbl (toFixed2 (Fin ?s)), riseScore = dbl (toFixed2 (Fin ?r)),
    totalScore = dbl (toFixed2 (Fin (min 10 (fl (?s + ?r)))))\<rparr>"
    by (simp add: calculatePhaseScores_def config_defs Let_def weights_double s' r' t(1)
        del: dbl.simps toFixed2.simps)
  moreover have "dbl (toFixed2 (Fin ?s)) = Fin (reported ?s)"
    using s by (intro reported_double) simp_all
  moreover have "dbl (toFixed2 (Fin ?r)) = Fin (reported ?r)"
    using r by (intro reported_double) simp_all
  moreover have "dbl (toFixed2 (Fin (min 10 (fl (?s + ?r))))) = Fin (reported (min 10 (fl (?s + ?r))))"
    using t(2) by (intro reported_double) simp_all
  ultimately show ?thesis
    by simp
qed

lemma spec_totalScore_Fin:
  assumes "0 \<le> a + b" "a + b \<le> 10"
  shows "spec_totalScore (Fin a) (Fin b) = Fin (reported (max 2 (min 10 (fl (a + b)))))"
proof -
  have b: "0 \<le> fl (a + b)" "fl (a + b) \<le> 10"
    using fl_mono [OF assms(1)] fl_mono [OF assms(2)] by (simp_all add: fl_10 fl_zero)
  then have "\<bar>fl (a + b)\<bar> < 2 ^ 1024"
    by simp
  then have "dadd (Fin a) (Fin b) = Fin (fl (a + b))"
    unfolding dadd_def plus_jsnum.simps by (rule dbl_bounded)
  moreover have "dbl (toFixed2 (Fin (max 2 (min 10 (fl (a + b)))))) =
      Fin (reported (max 2 (min 10 (fl (a + b)))))"
    by (rule reported_double) simp_all
  ultimately show ?thesis
    by (simp add: spec_totalScore_def del: dbl.simps toFixed2.simps)
qed

subsection \<open>Penalties and added supports\<close>

lemma calculatePhasePenalty_Fin:
  "calculatePhasePenalty phaseSupports = Fin (penaltyOf (set (concat phaseSupports)))"
  by (simp add: calculatePhasePenalty_def penaltyOf_def Let_def)

lemma penaltyOf_mono: "u \<subseteq> v \<Longrightarrow> penaltyOf u \<le> penaltyOf v"
  by (auto simp add: penaltyOf_def)

lemma penaltyOf_le: "penaltyOf u \<le> 1.5"
  by (simp add: penaltyOf_def)

lemma concat_subset:
  "list_all2 (\<lambda>a b. set a \<subseteq> set b) xs ys \<Longrightarrow> set (concat xs) \<subseteq> set (concat ys)"
  by (induction xs ys rule: list_all2_induct) auto

lemma add_HAND_pointwise:
  "list_all2 (\<lambda>a b. set a \<subseteq> set b) sp (sp[i := HAND # sp ! i])"
proof -
  have "set (sp ! j) \<subseteq> set (sp[i := HAND # sp ! i] ! j)" if "j < length sp" for j
    using that by (cases "i = j") auto
  then show ?thesis
    by (simp add: list_all2_conv_all_nth)
qed

lemma penalty_after_HAND:
  "penaltyOf (set (concat (take k sp))) \<le> penaltyOf (set (concat (take k (sp[i := HAND # sp ! i]))))"
  "penaltyOf (set (concat (drop k sp))) \<le> penaltyOf (set (concat (drop k (sp[i := HAND # sp ! i]))))"
  by ((rule penaltyOf_mono concat_subset list_all2_takeI list_all2_dropI add_HAND_pointwise)+)

lemma penalizedScore_antimono:
  assumes "q \<le> q'"
  shows "penalizedScore r q' \<le> penalizedScore r q"
proof -
  have "0 \<le> fl (3 / 5)"
    by (simp add: fl_3_5)
  then have "q * fl (3 / 5) \<le> q' * fl (3 / 5)"
    using assms by (rule mult_right_mono [rotated])
  then have "fl (q * fl (3 / 5)) \<le> fl (q' * fl (3 / 5))"
    by (rule fl_mono)
  then have "fl (r - fl (q' * fl (3 / 5))) \<le> fl (r - fl (q * fl (3 / 5)))"
    by (intro fl_mono) simp
  then show ?thesis
    by (simp add: penalizedScore_def min_def max_def)
qed

lemma penaltyOf_double: "\<bar>penaltyOf u\<bar> < 2 ^ 1024"
  by (simp add: penaltyOf_def)

lemma concat_add_HAND:
  "i < length xs \<Longrightarrow> set (concat (xs[i := HAND # xs ! i])) = insert HAND (set (concat xs))"
proof (induction xs arbitrary: i)
  case Nil
  then show ?case by simp
next
  case (Cons x xs)
  then show ?case by (cases i) auto
qed

lemma penaltyOf_insert_HAND: "HAND \<notin> u \<Longrightarrow> penaltyOf (insert HAND u) = penaltyOf u + 1"
  by (simp add: penaltyOf_def)

subsection \<open>The sampling loop\<close>

lemma stride_continue:
  assumes "0 < step" "0 < n"
  shows "(int (j * step) < int n - int step) = (j < (n - 1) div step)"
proof -
  have "(int (j * step) < int n - int step) = (j * step + step < n)"
    by linarith
  also have "\<dots> = ((j + 1) * step \<le> n - 1)"
    using assms(2) by (simp add: algebra_simps) linarith
  also have "\<dots> = (j + 1 \<le> (n - 1) div step)"
    using assms(1) by (simp add: less_eq_div_iff_mult_less_eq)
  finally show ?thesis by auto
qed

lemma sampleLoop_stride:
  assumes "0 < step" "0 < length frames"
  shows "sampleLoop frames step (j * step) =
    map (\<lambda>k. frames ! (k * step)) [j ..< (length frames - 1) div step]"
proof (induction "(length frames - 1) div step - j" arbitrary: j)
  case 0
  then have "\<not> j < (length frames - 1) div step" by simp
  then show ?case
    using stride_continue [OF assms, of j]
    by (subst sampleLoop.simps) simp
next
  case (Suc d)
  then have lt: "j < (length frames - 1) div step" by simp
  have d: "d = (length frames - 1) div step - Suc j" using Suc(2) by simp
  have "sampleLoop frames step (j * step) = frames ! (j * step) # sampleLoop frames step (Suc j * step)"
    using stride_continue [OF assms, of j] lt assms(1)
    by (subst sampleLoop.simps) (simp add: add.commute)
  also have "\<dots> = frames ! (j * step) # map (\<lambda>k. frames ! (k * step)) [Suc j ..< (length frames - 1) div step]"
    using Suc(1) [OF d] by simp
  also have "\<dots> = map (\<lambda>k. frames ! (k * step)) [j ..< (length frames - 1) div step]"
    using lt by (simp add: upt_conv_Cons)
  finally show ?case .
qed

lemma step_covers:
  assumes "40 < n"
  shows "n \<le> 40 * nat \<lceil>real n / real 40\<rceil>" "2 \<le> nat \<lceil>real n / real 40\<rceil>"
    "nat \<lceil>real n / real 40\<rceil> \<le> n - 1"
proof -
  let ?s = "nat \<lceil>real n / real 40\<rceil>"
  have "real n / 40 \<le> real_of_int \<lceil>real n / 40\<rceil>" by (rule le_of_int_ceiling)
  moreover have "real ?s = real_of_int \<lceil>real n / 40\<rceil>" by simp
  ultimately have "real n \<le> 40 * real ?s" by linarith
  then show 1: "n \<le> 40 * ?s" by (metis of_nat_le_iff of_nat_mult of_nat_numeral)
  have "1 < real n / 40" using assms by simp
  then have "1 < \<lceil>real n / real 40\<rceil>" by (simp add: less_ceiling_iff)
  then show "2 \<le> ?s" by linarith
  have "real n / 40 \<le> real (n - 1)" using assms by simp
  then have "\<lceil>real n / real 40\<rceil> \<le> int (n - 1)" by (simp add: ceiling_le_iff)
  then show "?s \<le> n - 1" by linarith
qed

subsection \<open>The transition loop on detected poses\<close>

lemma transitionStep_defined:
  assumes "i + 1 < length ps" "0 < i"
  shows "\<exists>st'. transitionStep (map Some ps) i st = Inr st'
      \<and> (transitionFrame st' = transitionFrame st \<or> transitionFrame st' = i)
      \<and> (lowestHipFrame st' = lowestHipFrame st \<or> lowestHipFrame st' = i)
      \<and> (\<not> hipTriple ps i \<longrightarrow> st' = st)"
  using assms
  by (auto simp add: transitionStep_def hipTriple_def Let_def split: option.splits)

lemma transitionLoop_defined:
  assumes "\<forall>i \<in> set is. i + 1 < length ps \<and> 0 < i"
  shows "\<exists>st'. transitionLoop (map Some ps) is st = Inr st'
      \<and> (transitionFrame st' = transitionFrame st \<or> transitionFrame st' \<in> set is)
      \<and> (lowestHipFrame st' = lowestHipFrame st \<or> lowestHipFrame st' \<in> set is)
      \<and> ((\<forall>i \<in> set is. \<not> hipTriple ps i) \<longrightarrow> st' = st)"
  using assms
proof (induction "is" arbitrary: st)
  case Nil
  then show ?case by simp
next
  case (Cons i "is")
  then have i: "i + 1 < length ps" "0 < i" by simp_all
  from transitionStep_defined [OF i, of st] obtain st1 where
    s1: "transitionStep (map Some ps) i st = Inr st1"
    and t1: "transitionFrame st1 = transitionFrame st \<or> transitionFrame st1 = i"
    and l1: "lowestHipFrame st1 = lowestHipFrame st \<or> lowestHipFrame st1 = i"
    and n1: "\<not> hipTriple ps i \<longrightarrow> st1 = st"
    by blast
  from Cons.prems have "\<forall>i \<in> set is. i + 1 < length ps \<and> 0 < i" by simp
  from Cons.IH [OF this, of st1] obtain st' where
    s2: "transitionLoop (map Some ps) is st1 = Inr st'"
    and t2: "transitionFrame st' = transitionFrame st1 \<or> transitionFrame st' \<in> set is"
    and l2: "lowestHipFrame st' = lowestHipFrame st1 \<or> lowestHipFrame st' \<in> set is"
    and n2: "(\<forall>i \<in> set is. \<not> hipTriple ps i) \<longrightarrow> st' = st1"
    by blast
  have "transitionLoop (map Some ps) (i # is) st = Inr st'"
    by (simp add: s1 s2)
  moreover have "transitionFrame st' = transitionFrame st \<or> transitionFrame st' \<in> set (i # is)"
    using t1 t2 by auto
  moreover have "lowestHipFrame st' = lowestHipFrame st \<or> lowestHipFrame st' \<in> set (i # is)"
    using l1 l2 by auto
  moreover have "(\<forall>j \<in> set (i # is). \<not> hipTriple ps j) \<longrightarrow> st' = st"
    using n1 n2 by auto
  ultimately show ?case by blast
qed



subsection \<open>Averages of per-frame scores\<close>

lemma finiteOrNaN_times: "finiteOrNaN s \<Longrightarrow> finiteOrNaN (s * Fin c)"
  by (cases s) simp_all

lemma filter_valid:
  "list_all finiteOrNaN vs \<Longrightarrow> filter (\<lambda>s. \<not> isNaN s) vs = map Fin (finiteValues vs)"
proof (induction vs)
  case Nil
  then show ?case by simp
next
  case (Cons v vs)
  then show ?case by (cases v) simp_all
qed

lemma foldl_plus_Fin: "foldl (+) (Fin a) (map Fin rs) = Fin (a + sum_list rs)"
  by (induction rs arbitrary: a) (simp_all add: add.assoc)

lemma average_Fin: "rs \<noteq> [] \<Longrightarrow> average (map Fin rs) = Fin (sum_list rs / real (length rs))"
  by (simp add: average_def foldl_plus_Fin)

lemma safeAverage_Fin:
  assumes "list_all finiteOrNaN vs"
  shows "safeAverage vs =
     Fin (if 3 \<le> length (finiteValues vs)
          then sum_list (finiteValues vs) / real (length (finiteValues vs)) else 0.3)"
proof (cases "3 \<le> length (finiteValues vs)")
  case True
  then have "finiteValues vs \<noteq> []" by auto
  then show ?thesis
    using True by (simp add: safeAverage_def filter_valid [OF assms] average_Fin)
next
  case False
  then show ?thesis
    by (simp add: safeAverage_def filter_valid [OF assms] DEFAULT_HIP_DRIVE_def)
qed

lemma clamped_safeAverage:
  assumes "list_all finiteOrNaN vs"
  shows "Math_max (Fin 0) (Math_min (Fin 1) (safeAverage vs)) = Fin (pooledIndex (finiteValues vs))"
  by (simp only: safeAverage_Fin [OF assms] Math_max_Fin Math_min_Fin pooledIndex_def)

lemma pooledIndex_range: "0 \<le> pooledIndex vs" "pooledIndex vs \<le> 1"
  by (simp_all add: pooledIndex_def)

lemma list_all_weighted:
  "list_all (\<lambda>p. finiteOrNaN (f p)) ps \<Longrightarrow> list_all finiteOrNaN (map (\<lambda>p. f p * Fin c) ps)"
  by (induction ps) (simp_all add: finiteOrNaN_times)

lemma finiteValues_replicate: "finiteValues (replicate n (Fin r)) = replicate n r"
  by (induction n) simp_all

lemma finiteValues_append: "finiteValues (vs @ ws) = finiteValues vs @ finiteValues ws"
  by (induction vs rule: finiteValues.induct) simp_all

lemma list_all_finite_replicate: "list_all finiteOrNaN (replicate n (Fin r))"
  by (induction n) simp_all

lemma spec_metricAverage_eq: "spec_metricAverage vs = safeAverage vs"
  by (simp add: spec_metricAverage_def safeAverage_def DEFAULT_HIP_DRIVE_def Let_def not_le)

lemma metricAverage_replicate:
  "3 \<le> n \<Longrightarrow> spec_metricAverage (replicate n (Fin r)) = Fin r"
  by (simp add: spec_metricAverage_eq safeAverage_Fin [OF list_all_finite_replicate]
      finiteValues_replicate sum_list_replicate)

lemma average_pair: "average [Fin a, Fin b] = Fin ((a + b) / 2)"
  using average_Fin [of "[a, b]"] by simp

subsection \<open>Per-frame scores are finite or NaN\<close>

lemma clamp_finiteOrNaN:
  "finiteOrNaN (Math_min (Fin a) (Math_max (Fin b) v))"
  "finiteOrNaN (Math_max (Fin a) (Math_min (Fin b) v))"
  by (cases v, simp_all add: Math_min_def Math_max_def)+

lemma calculateAngle_finiteOrNaN: "finiteOrNaN (calculateAngle a b c)"
  by (cases a; cases b; cases c) (simp_all add: calculateAngle.simps Let_def clamp_finiteOrNaN)

lemma angle_score_finiteOrNaN1:
  "finiteOrNaN a \<Longrightarrow> finiteOrNaN (abs (Fin 180 - a) / Fin 180)"
  by (cases a) (simp_all add: minus_jsnum_def)

lemma angle_score_finiteOrNaN2:
  "finiteOrNaN a \<Longrightarrow> 0 < c \<Longrightarrow> finiteOrNaN (if Fin c < a then Fin 1 else a / Fin c)"
  by (cases a) (simp_all add: minus_jsnum_def)

lemma stability_score_finiteOrNaN:
  "finiteOrNaN (Math_max (Fin 0) (Fin 1 - (abs u + abs v) / Fin 100))"
  by (cases u; cases v) (simp_all add: minus_jsnum_def Math_max_def)

lemma hipDrive_score_finiteOrNaN: "finiteOrNaN (score (analyzeHipDrive p))"
proof -
  have "score (analyzeHipDrive p) = Fin 0.3
      \<or> (\<exists>v. score (analyzeHipDrive p) = safeScore v (Fin 0.3))"
    by (auto simp add: analyzeHipDrive_def Let_def DEFAULT_HIP_DRIVE_def split: option.splits)
  moreover have "finiteOrNaN (safeScore v (Fin 0.3))" for v
    using safeScore_range [of "0.3" v] by auto
  ultimately show ?thesis by auto
qed

lemma sittingMetrics_finiteOrNaN:
  assumes "sittingMetrics po = Inr f"
  shows "finiteOrNaN (score (spinalAlignment f)) \<and> finiteOrNaN (score (hipControl f))
    \<and> finiteOrNaN (score (kneeFlexion f))"
proof (cases po)
  case None
  with assms show ?thesis by simp
next
  case (Some p)
  with assms have f: "f = \<lparr>kneeFlexion = analyzeKneeFlexion p, hipControl = analyzeHipControl p,
      spinalAlignment = analyzeSpinalAlignment p\<rparr>"
    by simp
  have "finiteOrNaN (score (analyzeSpinalAlignment p))"
    by (simp add: analyzeSpinalAlignment_def Let_def
        angle_score_finiteOrNaN1 [OF calculateAngle_finiteOrNaN])
  moreover have "finiteOrNaN (score (analyzeHipControl p))"
    by (simp add: analyzeHipControl_def Let_def clamp_finiteOrNaN)
  moreover have "finiteOrNaN (score (analyzeKneeFlexion p))"
    using angle_score_finiteOrNaN2 [OF calculateAngle_finiteOrNaN, of 90]
    by (simp add: analyzeKneeFlexion_def Let_def)
  ultimately show ?thesis
    by (simp add: f)
qed

lemma risingMetrics_finiteOrNaN:
  assumes "risingMetrics po = Inr f"
  shows "finiteOrNaN (dev_score (stability f)) \<and> finiteOrNaN (score (kneeExtension f))
    \<and> finiteOrNaN (score (hipDrive f))"
proof (cases po)
  case None
  with assms show ?thesis by simp
next
  case (Some p)
  with assms have f: "f = \<lparr>kneeExtension = analyzeKneeExtension p, hipDrive = analyzeHipDrive p,
      stability = analyzeStability p\<rparr>"
    by simp
  have "finiteOrNaN (dev_score (analyzeStability p))"
    by (simp add: analyzeStability_def Let_def stability_score_finiteOrNaN
        split: option.splits)
  moreover have "finiteOrNaN (score (analyzeKneeExtension p))"
    using angle_score_finiteOrNaN2 [OF calculateAngle_finiteOrNaN, of 160]
    by (simp add: analyzeKneeExtension_def Let_def)
  moreover have "finiteOrNaN (score (analyzeHipDrive p))"
    by (rule hipDrive_score_finiteOrNaN)
  ultimately show ?thesis
    by (simp add: f)
qed

lemma mapE_list_all:
  assumes "\<And>v w. f v = Inr w \<Longrightarrow> P w"
  shows "mapE f vs = Inr ws \<Longrightarrow> list_all P ws"
proof (induction vs arbitrary: ws)
  case Nil
  then show ?case by auto
next
  case (Cons v vs)
  then show ?case
    using assms by (auto split: sum.splits)
qed

lemma analyzed_sitting_finiteOrNaN:
  assumes "analyzeSittingPhase poses = Inr sittingPhase"
  shows "list_all (\<lambda>f. finiteOrNaN (score (spinalAlignment f))
      \<and> finiteOrNaN (score (hipControl f)) \<and> finiteOrNaN (score (kneeFlexion f))) sittingPhase"
proof (rule mapE_list_all [where f = sittingMetrics and vs = poses])
  show "mapE sittingMetrics poses = Inr sittingPhase"
    using assms by (simp add: analyzeSittingPhase_def)
  show "finiteOrNaN (score (spinalAlignment w))
      \<and> finiteOrNaN (score (hipControl w)) \<and> finiteOrNaN (score (kneeFlexion w))"
    if "sittingMetrics v = Inr w" for v w
    using that by (rule sittingMetrics_finiteOrNaN)
qed

lemma analyzed_rising_finiteOrNaN:
  assumes "analyzeRisingPhase poses = Inr risingPhase"
  shows "list_all (\<lambda>f. finiteOrNaN (dev_score (stability f))
      \<and> finiteOrNaN (score (kneeExtension f)) \<and> finiteOrNaN (score (hipDrive f))) risingPhase"
proof (rule mapE_list_all [where f = risingMetrics and vs = poses])
  show "mapE risingMetrics poses = Inr risingPhase"
    using assms by (simp add: analyzeRisingPhase_def)
  show "finiteOrNaN (dev_score (stability w))
      \<and> finiteOrNaN (score (kneeExtension w)) \<and> finiteOrNaN (score (hipDrive w))"
    if "risingMetrics v = Inr w" for v w
    using that by (rule risingMetrics_finiteOrNaN)
qed

subsection \<open>Undetected frames and the outcome of a run\<close>

lemma transitionStep_undefined:
  "poses ! (i - 1) = None \<or> poses ! i = None \<or> poses ! (i + 1) = None \<Longrightarrow>
     transitionStep poses i st = Inl TypeError"
  by (auto simp add: transitionStep_def split: option.splits)

lemma transitionStep_cases:
  "transitionStep poses i st = Inl TypeError \<or> (\<exists>st'. transitionStep poses i st = Inr st')"
  by (auto simp add: transitionStep_def Let_def split: option.splits)

lemma transitionLoop_undefined:
  assumes "\<exists>i \<in> set is. poses ! (i - 1) = None \<or> poses ! i = None \<or> poses ! (i + 1) = None"
  shows "transitionLoop poses is st = Inl TypeError"
  using assms
proof (induction "is" arbitrary: st)
  case Nil
  then show ?case by simp
next
  case (Cons i "is")
  show ?case
  proof (cases "poses ! (i - 1) = None \<or> poses ! i = None \<or> poses ! (i + 1) = None")
    case True
    then show ?thesis by (simp add: transitionStep_undefined)
  next
    case False
    with Cons.prems have r: "\<exists>i \<in> set is.
        poses ! (i - 1) = None \<or> poses ! i = None \<or> poses ! (i + 1) = None"
      by auto
    from transitionStep_cases [of poses i st] show ?thesis
    proof
      assume "transitionStep poses i st = Inl TypeError"
      then show ?thesis by simp
    next
      assume "\<exists>st'. transitionStep poses i st = Inr st'"
      then obtain st' where "transitionStep poses i st = Inr st'" ..
      then show ?thesis using Cons.IH [OF r, of st'] by simp
    qed
  qed
qed

lemma detectPhaseTransition_undefined:
  assumes "None \<in> set poses" "3 \<le> length poses"
  shows "detectPhaseTransition poses = Inl TypeError"
proof -
  from assms(1) obtain j where j: "j < length poses" "poses ! j = None"
    by (auto simp add: in_set_conv_nth)
  have "\<exists>i. 1 \<le> i \<and> i < length poses - 1 \<and> (j = i - 1 \<or> j = i \<or> j = i + 1)"
    using j(1) assms(2) by presburger
  then obtain i where i: "1 \<le> i" "i < length poses - 1" "j = i - 1 \<or> j = i \<or> j = i + 1"
    by blast
  have "i \<in> set [1 ..< length poses - 1]"
    using i(1,2) by simp
  moreover have "poses ! (i - 1) = None \<or> poses ! i = None \<or> poses ! (i + 1) = None"
    using i(3) j(2) by auto
  ultimately have "transitionLoop poses [1 ..< length poses - 1] (initialTransitionState poses)
      = Inl TypeError"
    by (intro transitionLoop_undefined) blast
  then show ?thesis
    by (simp add: detectPhaseTransition_def)
qed

lemma mapE_sittingMetrics_Some: "\<exists>fs. mapE sittingMetrics (map Some ps) = Inr fs"
  by (induction ps) auto

lemma mapE_risingMetrics_Some: "\<exists>fs. mapE risingMetrics (map Some ps) = Inr fs"
  by (induction ps) auto

lemma mapE_supportsOf_Some: "\<exists>fs. mapE supportsOf (map Some ps) = Inr fs"
  by (induction ps) auto

lemma all_defined: "None \<notin> set vs \<Longrightarrow> \<exists>ps. vs = map Some ps"
proof (induction vs)
  case Nil
  then show ?case by simp
next
  case (Cons v vs)
  then obtain ps where "vs = map Some ps" by auto
  moreover from Cons.prems obtain p where "v = Some p" by (cases v) auto
  ultimately have "v # vs = map Some (p # ps)" by simp
  then show ?case ..
qed

lemma slices_defined:
  "\<exists>qs. sittingSlice (map Some ps) t = map Some qs"
  "\<exists>qs. risingSlice (map Some ps) t = map Some qs"
  by (auto simp add: sittingSlice_def risingSlice_def Let_def take_map drop_map)

lemma analyzeSRTVideo_try_outcome:
  "(length frames < 20 \<longrightarrow> analyzeSRTVideo_try frames estimate = Inl InsufficientFrames)
   \<and> (20 \<le> length frames \<and> None \<in> set (map estimate frames)
        \<longrightarrow> analyzeSRTVideo_try frames estimate = Inl TypeError)
   \<and> (20 \<le> length frames \<and> None \<notin> set (map estimate frames)
        \<longrightarrow> (\<exists>r. analyzeSRTVideo_try frames estimate = Inr r))"
proof (intro conjI impI)
  assume "length frames < 20"
  then show "analyzeSRTVideo_try frames estimate = Inl InsufficientFrames"
    by (simp add: analyzeSRTVideo_try_def minFramesPerPhase_def)
next
  assume a: "20 \<le> length frames \<and> None \<in> set (map estimate frames)"
  then have "detectPhaseTransition (map estimate frames) = Inl TypeError"
    by (intro detectPhaseTransition_undefined) simp_all
  with a show "analyzeSRTVideo_try frames estimate = Inl TypeError"
    by (simp add: analyzeSRTVideo_try_def minFramesPerPhase_def)
next
  assume a: "20 \<le> length frames \<and> None \<notin> set (map estimate frames)"
  then obtain ps where ps: "map estimate frames = map Some ps"
    using all_defined by blast
  have len: "20 \<le> length ps"
    using a arg_cong [OF ps, of length] by simp
  have r: "\<forall>i \<in> set [1 ..< length ps - 1]. i + 1 < length ps \<and> 0 < i"
    by auto
  from transitionLoop_defined [OF r, of "initialTransitionState (map Some ps)"]
  obtain t where t: "detectPhaseTransition (map Some ps) = Inr t"
    by (auto simp add: detectPhaseTransition_def)
  from slices_defined [of ps t] mapE_sittingMetrics_Some
  obtain sp where sp: "analyzeSittingPhase (sittingSlice (map Some ps) t) = Inr sp"
    unfolding analyzeSittingPhase_def by metis
  from slices_defined [of ps t] mapE_risingMetrics_Some
  obtain rp where rp: "analyzeRisingPhase (risingSlice (map Some ps) t) = Inr rp"
    unfolding analyzeRisingPhase_def by metis
  from mapE_supportsOf_Some obtain su where su: "mapE supportsOf (map Some ps) = Inr su"
    by blast
  show "\<exists>r. analyzeSRTVideo_try frames estimate = Inr r"
    using len by (simp add: analyzeSRTVideo_try_def ps t sp rp su minFramesPerPhase_def Let_def)
qed

subsection \<open>Phase scores of examples\<close>

text \<open>
  The penalized scores of a few metric averages, each operation evaluated with \<open>fl_eval\<close>,
  and the doubles nearest to some decimals.
\<close>

lemma sit_score_three_eighths:
  "penalizedScore (rawPhaseScore 0.35 (3 / 8) 0.35 (3 / 8) 0.3 (3 / 8)) 0 = 8444249301319679 / 4503599627370496"
proof -
  have a1: "fl 0.35 = 3152519739159347 / 9007199254740992"
    by (rule trans [OF fl_eval [where e = "-2" and n = 6305039478318694]]) (simp_all add: roundEven_def)
  have a2: "fl ((3 / 8) * fl 0.35) = 1182194902184755 / 9007199254740992"
    unfolding a1
    by (rule trans [OF fl_eval [where e = "-3" and n = 4728779608739020]]) (simp_all add: roundEven_def)
  have a3: "fl (fl ((3 / 8) * fl 0.35) + fl ((3 / 8) * fl 0.35)) = 1182194902184755 / 4503599627370496"
    unfolding a2
    by (rule trans [OF fl_eval [where e = "-2" and n = 4728779608739020]]) (simp_all add: roundEven_def)
  have a4: "fl 0.3 = 5404319552844595 / 18014398509481984"
    by (rule trans [OF fl_eval [where e = "-2" and n = 5404319552844595]]) (simp_all add: roundEven_def)
  have a5: "fl ((3 / 8) * fl 0.3) = 2026619832316723 / 18014398509481984"
    unfolding a4
    by (rule trans [OF fl_eval [where e = "-4" and n = 8106479329266892]]) (simp_all add: roundEven_def)
  have a6: "fl (fl (fl ((3 / 8) * fl 0.35) + fl ((3 / 8) * fl 0.35)) + fl ((3 / 8) * fl 0.3)) = 6755399441055743 / 18014398509481984"
    unfolding a5
    unfolding a3
    by (rule trans [OF fl_eval [where e = "-2" and n = 6755399441055743]]) (simp_all add: roundEven_def)
  have a7: "fl (fl (fl (fl ((3 / 8) * fl 0.35) + fl ((3 / 8) * fl 0.35)) + fl ((3 / 8) * fl 0.3)) * 5) = 8444249301319679 / 4503599627370496"
    unfolding a6
    by (rule trans [OF fl_eval [where e = 0 and n = 8444249301319679]]) (simp_all add: roundEven_def)
  have a8: "fl 0.6 = 5404319552844595 / 9007199254740992"
    by (rule trans [OF fl_eval [where e = "-1" and n = 5404319552844595]]) (simp_all add: roundEven_def)
  have a9: "fl (0 * fl 0.6) = 0"
    unfolding a8
    by (simp add: fl_def)
  have a10: "fl (max 1.5 (fl (fl (fl (fl ((3 / 8) * fl 0.35) + fl ((3 / 8) * fl 0.35)) + fl ((3 / 8) * fl 0.3)) * 5)) - fl (0 * fl 0.6)) = 8444249301319679 / 4503599627370496"
    unfolding a9
    unfolding a7
    by (rule trans [OF fl_eval [where e = 0 and n = 8444249301319679]]) (simp_all add: roundEven_def)
  show ?thesis
    unfolding penalizedScore_def rawPhaseScore_def a10 by simp
qed

lemma rise_score_three_eighths:
  "penalizedScore (rawPhaseScore 0.3 (3 / 8) 0.4 (3 / 8) 0.3 (3 / 8)) 0 = 15 / 8"
proof -
  have a1: "fl 0.3 = 5404319552844595 / 18014398509481984"
    by (rule trans [OF fl_eval [where e = "-2" and n = 5404319552844595]]) (simp_all add: roundEven_def)
  have a2: "fl ((3 / 8) * fl 0.3) = 2026619832316723 / 18014398509481984"
    unfolding a1
    by (rule trans [OF fl_eval [where e = "-4" and n = 8106479329266892]]) (simp_all add: roundEven_def)
  have a3: "fl 0.4 = 3602879701896397 / 9007199254740992"
    by (rule trans [OF fl_eval [where e = "-2" and n = 7205759403792794]]) (simp_all add: roundEven_def)
  have a4: "fl ((3 / 8) * fl 0.4) = 1351079888211149 / 9007199254740992"
    unfolding a3
    by (rule trans [OF fl_eval [where e = "-3" and n = 5404319552844596]]) (simp_all add: roundEven_def)
  have a5: "fl (fl ((3 / 8) * fl 0.3) + fl ((3 / 8) * fl 0.4)) = 4728779608739021 / 18014398509481984"
    unfolding a4
    unfolding a2
    by (rule trans [OF fl_eval [where e = "-2" and n = 4728779608739021]]) (simp_all add: roundEven_def)
  have a6: "fl (fl (fl ((3 / 8) * fl 0.3) + fl ((3 / 8) * fl 0.4)) + fl ((3 / 8) * fl 0.3)) = 3 / 8"
    unfolding a5
    unfolding a2
    by (rule trans [OF fl_eval [where e = "-2" and n = 6755399441055744]]) (simp_all add: roundEven_def)
  have a7: "fl (fl (fl (fl ((3 / 8) * fl 0.3) + fl ((3 / 8) * fl 0.4)) + fl ((3 / 8) * fl 0.3)) * 5) = 15 / 8"
    unfolding a6
    by (rule trans [OF fl_eval [where e = 0 and n = 8444249301319680]]) (simp_all add: roundEven_def)
  have a8: "fl 0.6 = 5404319552844595 / 9007199254740992"
    by (rule trans [OF fl_eval [where e = "-1" and n = 5404319552844595]]) (simp_all add: roundEven_def)
  have a9: "fl (0 * fl 0.6) = 0"
    unfolding a8
    by (simp add: fl_def)
  have a10: "fl (max 1.5 (fl (fl (fl (fl ((3 / 8) * fl 0.3) + fl ((3 / 8) * fl 0.4)) + fl ((3 / 8) * fl 0.3)) * 5)) - fl (0 * fl 0.6)) = 15 / 8"
    unfolding a9
    unfolding a7
    by (rule trans [OF fl_eval [where e = 0 and n = 8444249301319680]]) (simp_all add: roundEven_def)
  show ?thesis
    unfolding penalizedScore_def rawPhaseScore_def a10 by simp
qed

lemma sit_score_example:
  "penalizedScore (rawPhaseScore 0.35 (3 / 8) 0.35 0 0.3 (5 / 8)) 0 = 51 / 32"
proof -
  have a1: "fl 0.35 = 3152519739159347 / 9007199254740992"
    by (rule trans [OF fl_eval [where e = "-2" and n = 6305039478318694]]) (simp_all add: roundEven_def)
  have a2: "fl ((3 / 8) * fl 0.35) = 1182194902184755 / 9007199254740992"
    unfolding a1
    by (rule trans [OF fl_eval [where e = "-3" and n = 4728779608739020]]) (simp_all add: roundEven_def)
  have a3: "fl (0 * fl 0.35) = 0"
    unfolding a1
    by (simp add: fl_def)
  have a4: "fl (fl ((3 / 8) * fl 0.35) + fl (0 * fl 0.35)) = 1182194902184755 / 9007199254740992"
    unfolding a3
    unfolding a2
    by (rule trans [OF fl_eval [where e = "-3" and n = 4728779608739020]]) (simp_all add: roundEven_def)
  have a5: "fl 0.3 = 5404319552844595 / 18014398509481984"
    by (rule trans [OF fl_eval [where e = "-2" and n = 5404319552844595]]) (simp_all add: roundEven_def)
  have a6: "fl ((5 / 8) * fl 0.3) = 3 / 16"
    unfolding a5
    by (rule trans [OF fl_eval [where e = "-3" and n = 6755399441055744]]) (simp_all add: roundEven_def)
  have a7: "fl (fl (fl ((3 / 8) * fl 0.35) + fl (0 * fl 0.35)) + fl ((5 / 8) * fl 0.3)) = 2871044762448691 / 9007199254740992"
    unfolding a6
    unfolding a4
    by (rule trans [OF fl_eval [where e = "-2" and n = 5742089524897382]]) (simp_all add: roundEven_def)
  have a8: "fl (fl (fl (fl ((3 / 8) * fl 0.35) + fl (0 * fl 0.35)) + fl ((5 / 8) * fl 0.3)) * 5) = 51 / 32"
    unfolding a7
    by (rule trans [OF fl_eval [where e = 0 and n = 7177611906121728]]) (simp_all add: roundEven_def)
  have a9: "fl 0.6 = 5404319552844595 / 9007199254740992"
    by (rule trans [OF fl_eval [where e = "-1" and n = 5404319552844595]]) (simp_all add: roundEven_def)
  have a10: "fl (0 * fl 0.6) = 0"
    unfolding a9
    by (simp add: fl_def)
  have a11: "fl (max 1.5 (fl (fl (fl (fl ((3 / 8) * fl 0.35) + fl (0 * fl 0.35)) + fl ((5 / 8) * fl 0.3)) * 5)) - fl (0 * fl 0.6)) = 51 / 32"
    unfolding a10
    unfolding a8
    by (rule trans [OF fl_eval [where e = 0 and n = 7177611906121728]]) (simp_all add: roundEven_def)
  show ?thesis
    unfolding penalizedScore_def rawPhaseScore_def a11 by simp
qed

lemma rise_score_example:
  "penalizedScore (rawPhaseScore 0.3 (3 / 8) 0.4 (1 / 2) 0.3 0) 0 = 25 / 16"
proof -
  have a1: "fl 0.3 = 5404319552844595 / 18014398509481984"
    by (rule trans [OF fl_eval [where e = "-2" and n = 5404319552844595]]) (simp_all add: roundEven_def)
  have a2: "fl ((3 / 8) * fl 0.3) = 2026619832316723 / 18014398509481984"
    unfolding a1
    by (rule trans [OF fl_eval [where e = "-4" and n = 8106479329266892]]) (simp_all add: roundEven_def)
  have a3: "fl 0.4 = 3602879701896397 / 9007199254740992"
    by (rule trans [OF fl_eval [where e = "-2" and n = 7205759403792794]]) (simp_all add: roundEven_def)
  have a4: "fl ((1 / 2) * fl 0.4) = 3602879701896397 / 18014398509481984"
    unfolding a3
    by (rule trans [OF fl_eval [where e = "-3" and n = 7205759403792794]]) (simp_all add: roundEven_def)
  have a5: "fl (fl ((3 / 8) * fl 0.3) + fl ((1 / 2) * fl 0.4)) = 5 / 16"
    unfolding a4
    unfolding a2
    by (rule trans [OF fl_eval [where e = "-2" and n = 5629499534213120]]) (simp_all add: roundEven_def)
  have a6: "fl (0 * fl 0.3) = 0"
    unfolding a1
    by (simp add: fl_def)
  have a7: "fl (fl (fl ((3 / 8) * fl 0.3) + fl ((1 / 2) * fl 0.4)) + fl (0 * fl 0.3)) = 5 / 16"
    unfolding a6
    unfolding a5
    by (rule trans [OF fl_eval [where e = "-2" and n = 5629499534213120]]) (simp_all add: roundEven_def)
  have a8: "fl (fl (fl (fl ((3 / 8) * fl 0.3) + fl ((1 / 2) * fl 0.4)) + fl (0 * fl 0.3)) * 5) = 25 / 16"
    unfolding a7
    by (rule trans [OF fl_eval [where e = 0 and n = 7036874417766400]]) (simp_all add: roundEven_def)
  have a9: "fl 0.6 = 5404319552844595 / 9007199254740992"
    by (rule trans [OF fl_eval [where e = "-1" and n = 5404319552844595]]) (simp_all add: roundEven_def)
  have a10: "fl (0 * fl 0.6) = 0"
    unfolding a9
    by (simp add: fl_def)
  have a11: "fl (max 1.5 (fl (fl (fl (fl ((3 / 8) * fl 0.3) + fl ((1 / 2) * fl 0.4)) + fl (0 * fl 0.3)) * 5)) - fl (0 * fl 0.6)) = 25 / 16"
    unfolding a10
    unfolding a8
    by (rule trans [OF fl_eval [where e = 0 and n = 7036874417766400]]) (simp_all add: roundEven_def)
  show ?thesis
    unfolding penalizedScore_def rawPhaseScore_def a11 by simp
qed


lemma total_three_eighths: "fl (8444249301319679 / 4503599627370496 + 15 / 8) = 15 / 4"
  by (rule trans [OF fl_eval [where e = 1 and n = 8444249301319680]]) (simp_all add: roundEven_def)

lemma total_example: "fl (51 / 32 + 25 / 16) = 101 / 32"
  by (rule trans [OF fl_eval [where e = 1 and n = 7107243161944064]]) (simp_all add: roundEven_def)

lemma fl_1_87: "fl 1.87 = 2105432825795707 / 1125899906842624"
  by (rule trans [OF fl_eval [where e = 0 and n = 8421731303182828]]) (simp_all add: roundEven_def)

lemma fl_1_88: "fl 1.88 = 2116691824864133 / 1125899906842624"
  by (rule trans [OF fl_eval [where e = 0 and n = 8466767299456532]]) (simp_all add: roundEven_def)

lemma fl_1_59: "fl 1.59 = 7160723407519089 / 4503599627370496"
  by (rule trans [OF fl_eval [where e = 0 and n = 7160723407519089]]) (simp_all add: roundEven_def)

lemma fl_1_56: "fl 1.56 = 3512807709348987 / 2251799813685248"
  by (rule trans [OF fl_eval [where e = 0 and n = 7025615418697974]]) (simp_all add: roundEven_def)

lemma fl_3_15: "fl 3.15 = 7093169413108531 / 2251799813685248"
  by (rule trans [OF fl_eval [where e = 1 and n = 7093169413108531]]) (simp_all add: roundEven_def)

lemma fl_3_16: "fl 3.16 = 889460926405673 / 281474976710656"
  by (rule trans [OF fl_eval [where e = 1 and n = 7115687411245384]]) (simp_all add: roundEven_def)

lemma total_of_reported_example: "fl (fl 1.59 + fl 1.56) = 1773292353277133 / 562949953421312"
  unfolding fl_1_59 fl_1_56
  by (rule trans [OF fl_eval [where e = 1 and n = 7093169413108532]]) (simp_all add: roundEven_def)

lemma sit_score_ones:
  "penalizedScore (rawPhaseScore 0.35 1 0.35 1 0.3 1) 0 = 5"
proof -
  have a1: "fl 0.35 = 3152519739159347 / 9007199254740992"
    by (rule trans [OF fl_eval [where e = "-2" and n = 6305039478318694]]) (simp_all add: roundEven_def)
  have a2: "fl (1 * fl 0.35) = 3152519739159347 / 9007199254740992"
    unfolding a1
    by (rule trans [OF fl_eval [where e = "-2" and n = 6305039478318694]]) (simp_all add: roundEven_def)
  have a3: "fl (fl (1 * fl 0.35) + fl (1 * fl 0.35)) = 3152519739159347 / 4503599627370496"
    unfolding a2
    by (rule trans [OF fl_eval [where e = "-1" and n = 6305039478318694]]) (simp_all add: roundEven_def)
  have a4: "fl 0.3 = 5404319552844595 / 18014398509481984"
    by (rule trans [OF fl_eval [where e = "-2" and n = 5404319552844595]]) (simp_all add: roundEven_def)
  have a5: "fl (1 * fl 0.3) = 5404319552844595 / 18014398509481984"
    unfolding a4
    by (rule trans [OF fl_eval [where e = "-2" and n = 5404319552844595]]) (simp_all add: roundEven_def)
  have a6: "fl (fl (fl (1 * fl 0.35) + fl (1 * fl 0.35)) + fl (1 * fl 0.3)) = 1"
    unfolding a5
    unfolding a3
    by (rule trans [OF fl_eval [where e = "-1" and n = 9007199254740992]]) (simp_all add: roundEven_def)
  have a7: "fl (fl (fl (fl (1 * fl 0.35) + fl (1 * fl 0.35)) + fl (1 * fl 0.3)) * 5) = 5"
    unfolding a6
    by (rule trans [OF fl_eval [where e = 2 and n = 5629499534213120]]) (simp_all add: roundEven_def)
  have a8: "fl 0.6 = 5404319552844595 / 9007199254740992"
    by (rule trans [OF fl_eval [where e = "-1" and n = 5404319552844595]]) (simp_all add: roundEven_def)
  have a9: "fl (0 * fl 0.6) = 0"
    unfolding a8
    by (simp add: fl_def)
  have a10: "fl (max 1.5 (fl (fl (fl (fl (1 * fl 0.35) + fl (1 * fl 0.35)) + fl (1 * fl 0.3)) * 5)) - fl (0 * fl 0.6)) = 5"
    unfolding a9
    unfolding a7
    by (rule trans [OF fl_eval [where e = 2 and n = 5629499534213120]]) (simp_all add: roundEven_def)
  show ?thesis
    unfolding penalizedScore_def rawPhaseScore_def a10 by simp
qed

lemma rise_score_ones_hand:
  "penalizedScore (rawPhaseScore 0.3 1 0.4 1 0.3 1) 1 = 2476979795053773 / 562949953421312"
proof -
  have a1: "fl 0.3 = 5404319552844595 / 18014398509481984"
    by (rule trans [OF fl_eval [where e = "-2" and n = 5404319552844595]]) (simp_all add: roundEven_def)
  have a2: "fl (1 * fl 0.3) = 5404319552844595 / 18014398509481984"
    unfolding a1
    by (rule trans [OF fl_eval [where e = "-2" and n = 5404319552844595]]) (simp_all add: roundEven_def)
  have a3: "fl 0.4 = 3602879701896397 / 9007199254740992"
    by (rule trans [OF fl_eval [where e = "-2" and n = 7205759403792794]]) (simp_all add: roundEven_def)
  have a4: "fl (1 * fl 0.4) = 3602879701896397 / 9007199254740992"
    unfolding a3
    by (rule trans [OF fl_eval [where e = "-2" and n = 7205759403792794]]) (simp_all add: roundEven_def)
  have a5: "fl (fl (1 * fl 0.3) + fl (1 * fl 0.4)) = 3152519739159347 / 4503599627370496"
    unfolding a4
    unfolding a2
    by (rule trans [OF fl_eval [where e = "-1" and n = 6305039478318694]]) (simp_all add: roundEven_def)
  have a6: "fl (fl (fl (1 * fl 0.3) + fl (1 * fl 0.4)) + fl (1 * fl 0.3)) = 1"
    unfolding a5
    unfolding a2
    by (rule trans [OF fl_eval [where e = "-1" and n = 9007199254740992]]) (simp_all add: roundEven_def)
  have a7: "fl (fl (fl (fl (1 * fl 0.3) + fl (1 * fl 0.4)) + fl (1 * fl 0.3)) * 5) = 5"
    unfolding a6
    by (rule trans [OF fl_eval [where e = 2 and n = 5629499534213120]]) (simp_all add: roundEven_def)
  have a8: "fl 0.6 = 5404319552844595 / 9007199254740992"
    by (rule trans [OF fl_eval [where e = "-1" and n = 5404319552844595]]) (simp_all add: roundEven_def)
  have a9: "fl (1 * fl 0.6) = 5404319552844595 / 9007199254740992"
    unfolding a8
    by (rule trans [OF fl_eval [where e = "-1" and n = 5404319552844595]]) (simp_all add: roundEven_def)
  have a10: "fl (max 1.5 (fl (fl (fl (fl (1 * fl 0.3) + fl (1 * fl 0.4)) + fl (1 * fl 0.3)) * 5)) - fl (1 * fl 0.6)) = 2476979795053773 / 562949953421312"
    unfolding a9
    unfolding a7
    by (rule trans [OF fl_eval [where e = 2 and n = 4953959590107546]]) (simp_all add: roundEven_def)
  show ?thesis
    unfolding penalizedScore_def rawPhaseScore_def a10 by simp
qed

lemma total_ones_hand: "fl (5 + 2476979795053773 / 562949953421312) = 5291729562160333 / 562949953421312"
  by (rule trans [OF fl_eval [where e = 3 and n = 5291729562160333]]) (simp_all add: roundEven_def)

subsection \<open>A hand support before the transition\<close>

lemma hand_while_sitting_transition:
  "detectPhaseTransition (map Some hand_while_sitting) = Inr 25"
  by (simp add: detectPhaseTransition_def hand_while_sitting_def hipPose_def handPose_def
      upt_rec_numeral initialTransitionState_def transitionStep_def find_keypoint_def
      KEYPOINT_CONFIDENCE_THRESHOLD_def Let_def)

lemma hipPose_supports: "detectSupportPoints (hipPose v) = []"
  by (simp add: detectSupportPoints_def hipPose_def find_keypoint_def
      KEYPOINT_CONFIDENCE_THRESHOLD_def Let_def)

lemma handPose_supports: "detectSupportPoints (handPose v) = [HAND]"
  by (simp add: detectSupportPoints_def handPose_def find_keypoint_def
      KEYPOINT_CONFIDENCE_THRESHOLD_def Let_def Math_max_def)

lemma hand_while_sitting_supports:
  "mapE supportsOf (map Some hand_while_sitting) = Inr ((replicate 30 [])[17 := [HAND]])"
  by (simp add: hand_while_sitting_def hipPose_supports handPose_supports numeral_eq_Suc)

section \<open>Hip drive\<close>




text \<open>
  Claim C2: for every pose whose right shoulder, hip, knee and ankle all have confidence
  above 0.3 and whose shoulder has a smaller \<open>y\<close> than its ankle, \<^verbatim>\<open>analyzeHipDrive\<close> returns
  angle 0 and the default score 0.3, whatever the hip, the knee and the width are: the guard
  tests \<^verbatim>\<open>shoulder.y - ankle.y <= 0\<close>.
\<close>

theorem analyzeHipDrive_upright_default:
  assumes "list_all confident
             [find_keypoint p ''right_shoulder'', find_keypoint p ''right_hip'',
              find_keypoint p ''right_knee'', find_keypoint p ''right_ankle'']"
    and "find_keypoint p ''right_shoulder'' = Some sh"
    and "find_keypoint p ''right_ankle'' = Some an"
    and "kp_y sh < kp_y an"
  shows "analyzeHipDrive p = \<lparr>angle = Fin 0, score = Fin 0.3\<rparr>"
proof -
  from assms(1) obtain hp where hp: "find_keypoint p ''right_hip'' = Some hp"
    using confident_Some [of "find_keypoint p ''right_hip''"] by auto
  have "kp_y sh - kp_y an \<le> Fin 0"
    using assms(4) by (rule less_imp_diff_le_zero)
  then show ?thesis
    using assms(1) by (simp add: analyzeHipDrive_def Let_def assms(2,3) hp DEFAULT_HIP_DRIVE_def)
qed

theorem analyzeHipDrive_upright_default_witness:
  "list_all confident
     [find_keypoint standing_pose ''right_shoulder'', find_keypoint standing_pose ''right_hip'',
      find_keypoint standing_pose ''right_knee'', find_keypoint standing_pose ''right_ankle'']
   \<and> analyzeHipDrive standing_pose = \<lparr>angle = Fin 0, score = Fin 0.3\<rparr>"
  using analyzeHipDrive_upright_default [of standing_pose
      "\<lparr>kp_name = ''right_shoulder'', kp_x = Fin 100, kp_y = Fin 100, kp_score = Fin 0.9\<rparr>"
      "\<lparr>kp_name = ''right_ankle'', kp_x = Fin 100, kp_y = Fin 400, kp_score = Fin 0.9\<rparr>"]
  by (simp add: find_keypoint_def standing_pose_def KEYPOINT_CONFIDENCE_THRESHOLD_def)

section \<open>The frame-count check\<close>

text \<open>
  Claim C3: the run fails with the insufficient-frames error exactly when fewer than 20
  usable poses remain, and a frame without a detection is dropped from the pose sequence.
  \<^verbatim>\<open>analyzeSRTVideo\<close> keeps the \<^verbatim>\<open>undefined\<close> entry instead. On 21 frames of which frame 5
  yields no detection, the pose sequence has 21 entries, 20 of them poses; the frame-count
  check passes, \<^verbatim>\<open>detectPhaseTransition\<close> reads \<^verbatim>\<open>keypoints\<close> of the missing entry, and the
  run ends with \<^verbatim>\<open>"Failed to analyze video"\<close>, whereas 20 detected poses alone are analysed to
  the end. The check itself counts entries: 15 frames fail it.
\<close>

theorem analyzeSRTVideo_undetected_frame:
  "length (map missing_detection [0 ..< 21]) = 21
   \<and> length (filter (\<lambda>p. p \<noteq> None) (map missing_detection [0 ..< 21])) = 20
   \<and> analyzeSRTVideo_try [0 ..< 21] missing_detection = Inl TypeError
   \<and> analyzeSRTVideo [0 ..< 21] missing_detection = Inl AnalysisFailed
   \<and> (\<exists>r. analyzeSRTVideo [0 ..< 20] (\<lambda>i. Some empty_pose) = Inr r)
   \<and> analyzeSRTVideo_try [0 ..< 15] (\<lambda>i. Some empty_pose) = Inl InsufficientFrames"
proof -
  have 1: "length (map missing_detection [0 ..< 21]) = 21"
    by simp
  have 2: "length (filter (\<lambda>p. p \<noteq> None) (map missing_detection [0 ..< 21])) = 20"
    by code_simp
  have n: "None \<in> set (map missing_detection [0 ..< 21])"
    by (auto simp add: missing_detection_def image_iff)
  have 3: "analyzeSRTVideo_try [0 ..< 21] missing_detection = Inl TypeError"
    using analyzeSRTVideo_try_outcome [of "[0 ..< 21]" missing_detection] n by simp
  have 4: "analyzeSRTVideo [0 ..< 21] missing_detection = Inl AnalysisFailed"
    by (simp add: analyzeSRTVideo_def 3)
  have "\<exists>r. analyzeSRTVideo_try [0 ..< 20] (\<lambda>i. Some empty_pose) = Inr r"
    using analyzeSRTVideo_try_outcome [of "[0 ..< 20]" "\<lambda>i. Some empty_pose"] by auto
  then have 5: "\<exists>r. analyzeSRTVideo [0 ..< 20] (\<lambda>i. Some empty_pose) = Inr r"
    by (auto simp add: analyzeSRTVideo_def)
  have 6: "analyzeSRTVideo_try [0 ..< 15] (\<lambda>i. Some empty_pose) = Inl InsufficientFrames"
    using analyzeSRTVideo_try_outcome [of "[0 ..< 15]" "\<lambda>i. Some empty_pose"] by simp
  from 1 2 3 4 5 6 show ?thesis
    by blast
qed

section \<open>Unavailable landmarks\<close>

text \<open>
  Claim C4: every per-frame metric function treats a landmark whose confidence is at or
  below 0.3 as unavailable and returns score 0 with angle 0. Of the five functions named, only
  \<^verbatim>\<open>analyzeHipControl\<close> compares the confidence with the threshold; the other four test that
  the keypoints were found. On a pose whose hip has confidence 0.1, knee flexion, knee
  extension, spinal alignment and stability are computed from the hip's coordinates, and hip
  control returns angle 0 and score 0.
\<close>

theorem metrics_use_low_confidence_keypoint:
  "\<not> confident (find_keypoint low_confidence_hip_pose ''right_hip'')
   \<and> analyzeKneeFlexion low_confidence_hip_pose = \<lparr>angle = Fin 90, score = Fin 1\<rparr>
   \<and> analyzeKneeExtension low_confidence_hip_pose = \<lparr>angle = Fin 90, score = Fin 0.5625\<rparr>
   \<and> analyzeSpinalAlignment low_confidence_hip_pose = \<lparr>angle = Fin 90, score = Fin 0.5\<rparr>
   \<and> analyzeStability low_confidence_hip_pose = \<lparr>deviation = Fin 20, dev_score = Fin 0.8\<rparr>
   \<and> analyzeHipControl low_confidence_hip_pose = \<lparr>angle = Fin 0, score = Fin 0\<rparr>"
  by (simp add: find_keypoint_def low_confidence_hip_pose_def KEYPOINT_CONFIDENCE_THRESHOLD_def
      analyzeKneeFlexion_def analyzeKneeExtension_def analyzeSpinalAlignment_def
      analyzeStability_def analyzeHipControl_def
      calculateAngle_points power2_eq_square atan2_def)

section \<open>Phase scores\<close>

text \<open>
  Claim C5: the sit score is \<open>clamp(raw - penalty \<times> 0.6, 1.5, 5)\<close> rounded to 2 decimals, with
  \<open>raw = max(1.5, (kneeFlexion \<times> 0.35 + hipControl \<times> 0.35 + spinalAlignment \<times> 0.3) \<times> 5)\<close>; the
  rise score likewise with \<open>kneeExtension \<times> 0.3 + hipDrive \<times> 0.4 + stability \<times> 0.3\<close>; the total
  score is \<open>clamp(sit + rise, 2, 10)\<close> rounded to 2 decimals; the sit and rise scores lie in
  \<open>[1.5, 5]\<close> and the total in \<open>[2, 10]\<close>. \<^verbatim>\<open>calculatePhaseScores\<close> evaluates the formulas in
  double precision, one rounding for each operation (\<open>rawPhaseScore\<close>, \<open>penalizedScore\<close>), and it
  takes the total over the two penalized scores before they are rounded to 2 decimals, not
  over the sit and rise scores of the report. The theorem states the claim in this form, for
  all metric averages and penalties that are finite doubles, which are the numbers of
  magnitude below \<open>2 ^ 1024\<close>. The code has no lower clamp of the total: each phase score being
  at least 1.5, the clamp at 2 changes nothing.
\<close>

theorem calculatePhaseScores_double_precision:
  assumes "\<bar>kf\<bar> < 2 ^ 1024" "\<bar>hc\<bar> < 2 ^ 1024" "\<bar>sa\<bar> < 2 ^ 1024" "\<bar>ps\<bar> < 2 ^ 1024"
    and "\<bar>ke\<bar> < 2 ^ 1024" "\<bar>dr\<bar> < 2 ^ 1024" "\<bar>sb\<bar> < 2 ^ 1024" "\<bar>pr\<bar> < 2 ^ 1024"
  shows "calculatePhaseScores
     \<lparr>kneeFlexionAvg = Fin kf, hipControlAvg = Fin hc, spinalAlignmentAvg = Fin sa\<rparr>
     \<lparr>kneeExtensionAvg = Fin ke, hipDriveAvg = Fin dr, stabilityAvg = Fin sb\<rparr>
     \<lparr>sitting = Fin ps, rising = Fin pr\<rparr> =
   \<lparr>sitScore = Fin (reported (penalizedScore (rawPhaseScore 0.35 kf 0.35 hc 0.3 sa) ps)),
    riseScore = Fin (reported (penalizedScore (rawPhaseScore 0.3 ke 0.4 dr 0.3 sb) pr)),
    totalScore = Fin (reported (max 2 (min 10 (fl
        (penalizedScore (rawPhaseScore 0.35 kf 0.35 hc 0.3 sa) ps
         + penalizedScore (rawPhaseScore 0.3 ke 0.4 dr 0.3 sb) pr)))))\<rparr>
   \<and> 1.5 \<le> reported (penalizedScore (rawPhaseScore 0.35 kf 0.35 hc 0.3 sa) ps)
   \<and> reported (penalizedScore (rawPhaseScore 0.35 kf 0.35 hc 0.3 sa) ps) \<le> 5
   \<and> 1.5 \<le> reported (penalizedScore (rawPhaseScore 0.3 ke 0.4 dr 0.3 sb) pr)
   \<and> reported (penalizedScore (rawPhaseScore 0.3 ke 0.4 dr 0.3 sb) pr) \<le> 5
   \<and> 2 \<le> reported (max 2 (min 10 (fl
        (penalizedScore (rawPhaseScore 0.35 kf 0.35 hc 0.3 sa) ps
         + penalizedScore (rawPhaseScore 0.3 ke 0.4 dr 0.3 sb) pr))))
   \<and> reported (max 2 (min 10 (fl
        (penalizedScore (rawPhaseScore 0.35 kf 0.35 hc 0.3 sa) ps
         + penalizedScore (rawPhaseScore 0.3 ke 0.4 dr 0.3 sb) pr)))) \<le> 10"
proof -
  let ?s = "penalizedScore (rawPhaseScore 0.35 kf 0.35 hc 0.3 sa) ps"
  let ?r = "penalizedScore (rawPhaseScore 0.3 ke 0.4 dr 0.3 sb) pr"
  have s: "3 / 2 \<le> ?s" "?s \<le> 5" and r: "3 / 2 \<le> ?r" "?r \<le> 5"
    by (rule penalizedScore_bounds)+
  note t = total_double [OF s r]
  have m: "max 2 (min 10 (fl (?s + ?r))) = min 10 (fl (?s + ?r))"
    using t(2) by simp
  have t': "3 \<le> min 10 (fl (?s + ?r))" "min 10 (fl (?s + ?r)) \<le> 10"
    using t(2) by simp_all
  have e: "calculatePhaseScores
     \<lparr>kneeFlexionAvg = Fin kf, hipControlAvg = Fin hc, spinalAlignmentAvg = Fin sa\<rparr>
     \<lparr>kneeExtensionAvg = Fin ke, hipDriveAvg = Fin dr, stabilityAvg = Fin sb\<rparr>
     \<lparr>sitting = Fin ps, rising = Fin pr\<rparr> =
   \<lparr>sitScore = Fin (reported ?s), riseScore = Fin (reported ?r),
    totalScore = Fin (reported (max 2 (min 10 (fl (?s + ?r)))))\<rparr>"
    unfolding m by (rule calculatePhaseScores_Fin [OF assms])
  have b: "1.5 \<le> reported ?s" "reported ?s \<le> 5" "1.5 \<le> reported ?r" "reported ?r \<le> 5"
    using reported_phase_bounds [OF s] reported_phase_bounds [OF r] by simp_all
  have c: "2 \<le> reported (max 2 (min 10 (fl (?s + ?r))))"
    "reported (max 2 (min 10 (fl (?s + ?r)))) \<le> 10"
    unfolding m using reported_total_bounds [OF t'] by simp_all
  show ?thesis
    by (intro conjI e b c)
qed

text \<open>
  With every metric average 0.375 and no support, the report has the sit score 1.87 and the
  rise score 1.88: in double precision the weighted sum of the sitting phase times 5 is
  \<open>8444249301319679 / 2 ^ 52\<close>, the double below 1.875.
\<close>

theorem calculatePhaseScores_double_precision_witness:
  "calculatePhaseScores
     \<lparr>kneeFlexionAvg = Fin (3 / 8), hipControlAvg = Fin (3 / 8), spinalAlignmentAvg = Fin (3 / 8)\<rparr>
     \<lparr>kneeExtensionAvg = Fin (3 / 8), hipDriveAvg = Fin (3 / 8), stabilityAvg = Fin (3 / 8)\<rparr>
     \<lparr>sitting = Fin 0, rising = Fin 0\<rparr> =
   \<lparr>sitScore = Fin (fl 1.87), riseScore = Fin (fl 1.88), totalScore = Fin (fl 3.75)\<rparr>"
proof -
  have h: "\<bar>3 / 8 :: real\<bar> < 2 ^ 1024" "\<bar>0 :: real\<bar> < 2 ^ 1024"
    by simp_all
  have v: "reported (8444249301319679 / 4503599627370496) = fl 1.87"
    "reported (15 / 8) = fl 1.88" "reported (max 2 (min 10 (15 / 4))) = fl 3.75"
    by (simp_all add: reported_def round2_def)
  show ?thesis
    using calculatePhaseScores_double_precision [OF h(1) h(1) h(1) h(2) h(1) h(1) h(1) h(2)]
    unfolding sit_score_three_eighths rise_score_three_eighths total_three_eighths v
    by (rule conjunct1)
qed

text \<open>
  The total of the report is not the clamped sum of its sit and rise scores: the penalized
  scores 1.59375 and 1.5625 are reported as 1.59 and 1.56, and their sum 3.15625 as 3.16,
  where the sum of 1.59 and 1.56 rounds to 3.15. Nor is a phase score the rounding of the
  exact value of its formula: with every average 0.375 the exact value is 1.875, which rounds
  to 1.88, and the code reports 1.87.
\<close>

theorem totalScore_of_reported_scores_counterexample:
  "calculatePhaseScores
     \<lparr>kneeFlexionAvg = Fin (3 / 8), hipControlAvg = Fin 0, spinalAlignmentAvg = Fin (5 / 8)\<rparr>
     \<lparr>kneeExtensionAvg = Fin (3 / 8), hipDriveAvg = Fin (1 / 2), stabilityAvg = Fin 0\<rparr>
     \<lparr>sitting = Fin 0, rising = Fin 0\<rparr> =
   \<lparr>sitScore = Fin (fl 1.59), riseScore = Fin (fl 1.56), totalScore = Fin (fl 3.16)\<rparr>
   \<and> spec_totalScore (Fin (fl 1.59)) (Fin (fl 1.56)) = Fin (fl 3.15)
   \<and> fl 3.15 < fl 3.16
   \<and> sitScore (calculatePhaseScores
     \<lparr>kneeFlexionAvg = Fin (3 / 8), hipControlAvg = Fin (3 / 8), spinalAlignmentAvg = Fin (3 / 8)\<rparr>
     \<lparr>kneeExtensionAvg = Fin (3 / 8), hipDriveAvg = Fin (3 / 8), stabilityAvg = Fin (3 / 8)\<rparr>
     \<lparr>sitting = Fin 0, rising = Fin 0\<rparr>) = Fin (fl 1.87)
   \<and> spec_phaseScore 0.35 (3 / 8) 0.35 (3 / 8) 0.3 (3 / 8) 0 = 1.88
   \<and> fl 1.87 < fl 1.88"
proof -
  have h: "\<bar>3 / 8 :: real\<bar> < 2 ^ 1024" "\<bar>0 :: real\<bar> < 2 ^ 1024" "\<bar>5 / 8 :: real\<bar> < 2 ^ 1024"
    "\<bar>1 / 2 :: real\<bar> < 2 ^ 1024"
    by simp_all
  have v: "reported (51 / 32) = fl 1.59" "reported (25 / 16) = fl 1.56"
    "reported (min 10 (101 / 32)) = fl 3.16"
    "reported (8444249301319679 / 4503599627370496) = fl 1.87"
    "reported (max 2 (min 10 (1773292353277133 / 562949953421312))) = fl 3.15"
    by (simp_all add: reported_def round2_def)
  have 1: "calculatePhaseScores
     \<lparr>kneeFlexionAvg = Fin (3 / 8), hipControlAvg = Fin 0, spinalAlignmentAvg = Fin (5 / 8)\<rparr>
     \<lparr>kneeExtensionAvg = Fin (3 / 8), hipDriveAvg = Fin (1 / 2), stabilityAvg = Fin 0\<rparr>
     \<lparr>sitting = Fin 0, rising = Fin 0\<rparr> =
   \<lparr>sitScore = Fin (fl 1.59), riseScore = Fin (fl 1.56), totalScore = Fin (fl 3.16)\<rparr>"
    using calculatePhaseScores_Fin [OF h(1) h(2) h(3) h(2) h(1) h(4) h(2) h(2)]
    unfolding sit_score_example rise_score_example total_example v .
  have p: "0 \<le> fl 1.59 + fl 1.56" "fl 1.59 + fl 1.56 \<le> 10"
    unfolding fl_1_59 fl_1_56 by simp_all
  have 2: "spec_totalScore (Fin (fl 1.59)) (Fin (fl 1.56)) = Fin (fl 3.15)"
    unfolding spec_totalScore_Fin [OF p] total_of_reported_example v ..
  have 3: "fl 3.15 < fl 3.16" "fl 1.87 < fl 1.88"
    unfolding fl_3_15 fl_3_16 fl_1_87 fl_1_88 by simp_all
  have 4: "sitScore (calculatePhaseScores
     \<lparr>kneeFlexionAvg = Fin (3 / 8), hipControlAvg = Fin (3 / 8), spinalAlignmentAvg = Fin (3 / 8)\<rparr>
     \<lparr>kneeExtensionAvg = Fin (3 / 8), hipDriveAvg = Fin (3 / 8), stabilityAvg = Fin (3 / 8)\<rparr>
     \<lparr>sitting = Fin 0, rising = Fin 0\<rparr>) = Fin (fl 1.87)"
    unfolding calculatePhaseScores_Fin [OF h(1) h(1) h(1) h(2) h(1) h(1) h(1) h(2)]
      sit_score_three_eighths v by simp
  have 5: "spec_phaseScore 0.35 (3 / 8) 0.35 (3 / 8) 0.3 (3 / 8) 0 = 1.88"
    by (simp add: spec_phaseScore_def round2_def)
  show ?thesis
    by (intro conjI 1 2 3 4 5)
qed

section \<open>Composite indices\<close>

text \<open>
  Claim C6: each composite index lies in \<open>[0, 1]\<close> and is the clamped average of its
  phase-level weighted metric scores, such as
  \<open>average(1.3 \<cdot> sitting.spinalAlignment, 1.2 \<cdot> rising.stability)\<close>. \<^verbatim>\<open>calculateComponentScores\<close>
  averages over frames, not over phases: it pools the weighted per-frame scores of both
  phases into one list, drops the NaN entries, and takes the mean of the rest, or 0.3 when
  fewer than 3 remain. The theorem states this for per-frame scores that are finite or NaN,
  which the scores computed by \<^verbatim>\<open>analyzeSittingPhase\<close> and \<^verbatim>\<open>analyzeRisingPhase\<close> always are
  (\<open>analyzed_sitting_finiteOrNaN\<close>, \<open>analyzed_rising_finiteOrNaN\<close>); each index is then a
  number in \<open>[0, 1]\<close>.
\<close>

theorem componentScores_pooled_average:
  "list_all (\<lambda>p. finiteOrNaN (score (spinalAlignment p))) sittingPhase
   \<and> list_all (\<lambda>p. finiteOrNaN (score (hipControl p))) sittingPhase
   \<and> list_all (\<lambda>p. finiteOrNaN (score (kneeFlexion p))) sittingPhase
   \<and> list_all (\<lambda>p. finiteOrNaN (dev_score (stability p))) risingPhase
   \<and> list_all (\<lambda>p. finiteOrNaN (score (kneeExtension p))) risingPhase
   \<and> list_all (\<lambda>p. finiteOrNaN (score (hipDrive p))) risingPhase
   \<longrightarrow>
   calculateComponentScores sittingPhase risingPhase =
     \<lparr>posturalControl = Fin (pooledIndex (finiteValues
        (map (\<lambda>p. score (spinalAlignment p) * Fin 1.3) sittingPhase
         @ map (\<lambda>p. dev_score (stability p) * Fin 1.2) risingPhase))),
      balance = Fin (pooledIndex (finiteValues
        (map (\<lambda>p. score (hipControl p) * Fin 1.4) sittingPhase
         @ map (\<lambda>p. dev_score (stability p) * Fin 1.3) risingPhase))),
      coordination = Fin (pooledIndex (finiteValues
        (map (\<lambda>p. score (kneeFlexion p) * Fin 1.1) sittingPhase
         @ map (\<lambda>p. score (kneeExtension p) * Fin 1.1) risingPhase
         @ map (\<lambda>p. score (hipDrive p) * Fin 1.2) risingPhase)))\<rparr>
   \<and> Fin 0 \<le> posturalControl (calculateComponentScores sittingPhase risingPhase)
   \<and> posturalControl (calculateComponentScores sittingPhase risingPhase) \<le> Fin 1
   \<and> Fin 0 \<le> balance (calculateComponentScores sittingPhase risingPhase)
   \<and> balance (calculateComponentScores sittingPhase risingPhase) \<le> Fin 1
   \<and> Fin 0 \<le> coordination (calculateComponentScores sittingPhase risingPhase)
   \<and> coordination (calculateComponentScores sittingPhase risingPhase) \<le> Fin 1"
proof (intro impI)
  assume a: "list_all (\<lambda>p. finiteOrNaN (score (spinalAlignment p))) sittingPhase
   \<and> list_all (\<lambda>p. finiteOrNaN (score (hipControl p))) sittingPhase
   \<and> list_all (\<lambda>p. finiteOrNaN (score (kneeFlexion p))) sittingPhase
   \<and> list_all (\<lambda>p. finiteOrNaN (dev_score (stability p))) risingPhase
   \<and> list_all (\<lambda>p. finiteOrNaN (score (kneeExtension p))) risingPhase
   \<and> list_all (\<lambda>p. finiteOrNaN (score (hipDrive p))) risingPhase"
  let ?pc = "map (\<lambda>p. score (spinalAlignment p) * Fin 1.3) sittingPhase
         @ map (\<lambda>p. dev_score (stability p) * Fin 1.2) risingPhase"
  let ?ba = "map (\<lambda>p. score (hipControl p) * Fin 1.4) sittingPhase
         @ map (\<lambda>p. dev_score (stability p) * Fin 1.3) risingPhase"
  let ?co = "map (\<lambda>p. score (kneeFlexion p) * Fin 1.1) sittingPhase
         @ map (\<lambda>p. score (kneeExtension p) * Fin 1.1) risingPhase
         @ map (\<lambda>p. score (hipDrive p) * Fin 1.2) risingPhase"
  have pc: "list_all finiteOrNaN ?pc"
    using a by (simp add: list_all_weighted)
  have ba: "list_all finiteOrNaN ?ba"
    using a by (simp add: list_all_weighted)
  have co: "list_all finiteOrNaN ?co"
    using a by (simp add: list_all_weighted)
  have e: "calculateComponentScores sittingPhase risingPhase =
     \<lparr>posturalControl = Fin (pooledIndex (finiteValues ?pc)),
      balance = Fin (pooledIndex (finiteValues ?ba)),
      coordination = Fin (pooledIndex (finiteValues ?co))\<rparr>"
    by (simp only: calculateComponentScores_def clamped_safeAverage [OF pc]
        clamped_safeAverage [OF ba] clamped_safeAverage [OF co])
  show "calculateComponentScores sittingPhase risingPhase =
     \<lparr>posturalControl = Fin (pooledIndex (finiteValues ?pc)),
      balance = Fin (pooledIndex (finiteValues ?ba)),
      coordination = Fin (pooledIndex (finiteValues ?co))\<rparr>
   \<and> Fin 0 \<le> posturalControl (calculateComponentScores sittingPhase risingPhase)
   \<and> posturalControl (calculateComponentScores sittingPhase risingPhase) \<le> Fin 1
   \<and> Fin 0 \<le> balance (calculateComponentScores sittingPhase risingPhase)
   \<and> balance (calculateComponentScores sittingPhase risingPhase) \<le> Fin 1
   \<and> Fin 0 \<le> coordination (calculateComponentScores sittingPhase risingPhase)
   \<and> coordination (calculateComponentScores sittingPhase risingPhase) \<le> Fin 1"
    unfolding e by (simp add: pooledIndex_range)
qed


theorem componentScores_pooled_average_witness:
  "calculateComponentScores
     [sittingFrameWith (Fin 0.5), sittingFrameWith (Fin 1), sittingFrameWith NaN]
     [risingFrameWith (Fin 1), risingFrameWith (Fin 0.5)]
   = \<lparr>posturalControl = Fin 0.9375, balance = Fin 1, coordination = Fin 0.85\<rparr>
   \<and> calculateComponentScores [sittingFrameWith (Fin 1)] [risingFrameWith (Fin 1)]
   = \<lparr>posturalControl = Fin 0.3, balance = Fin 0.3, coordination = Fin 1\<rparr>"
proof -
  have 1: "calculateComponentScores
     [sittingFrameWith (Fin 0.5), sittingFrameWith (Fin 1), sittingFrameWith NaN]
     [risingFrameWith (Fin 1), risingFrameWith (Fin 0.5)]
   = \<lparr>posturalControl = Fin 0.9375, balance = Fin 1, coordination = Fin 0.85\<rparr>"
    using componentScores_pooled_average
      [of "[sittingFrameWith (Fin 0.5), sittingFrameWith (Fin 1), sittingFrameWith NaN]"
          "[risingFrameWith (Fin 1), risingFrameWith (Fin 0.5)]"]
    by (simp add: sittingFrameWith_def risingFrameWith_def pooledIndex_def)
  have 2: "calculateComponentScores [sittingFrameWith (Fin 1)] [risingFrameWith (Fin 1)]
   = \<lparr>posturalControl = Fin 0.3, balance = Fin 0.3, coordination = Fin 1\<rparr>"
    using componentScores_pooled_average
      [of "[sittingFrameWith (Fin 1)]" "[risingFrameWith (Fin 1)]"]
    by (simp add: sittingFrameWith_def risingFrameWith_def pooledIndex_def)
  from 1 2 show ?thesis ..
qed

theorem posturalControl_pooled_counterexample:
  "posturalControl (calculateComponentScores
       (replicate 10 (sittingFrameWith (Fin 0.6))) (replicate 20 (risingFrameWith (Fin 0))))
     = Fin 0.26
   \<and> spec_posturalControl
       (replicate 10 (sittingFrameWith (Fin 0.6))) (replicate 20 (risingFrameWith (Fin 0)))
     = Fin 0.39
   \<and> posturalControl (calculateComponentScores
       (replicate 10 (sittingFrameWith (Fin 0.6))) (replicate 20 (risingFrameWith (Fin 0))))
     \<noteq> spec_posturalControl
       (replicate 10 (sittingFrameWith (Fin 0.6))) (replicate 20 (risingFrameWith (Fin 0)))"
proof -
  have f: "list_all finiteOrNaN (replicate 10 (Fin (39 / 50)) @ replicate 20 (Fin 0))"
    by (simp add: list_all_finite_replicate)
  have c: "posturalControl (calculateComponentScores
       (replicate 10 (sittingFrameWith (Fin 0.6))) (replicate 20 (risingFrameWith (Fin 0))))
     = Fin 0.26"
    by (simp add: calculateComponentScores_def sittingFrameWith_def risingFrameWith_def
        clamped_safeAverage [OF f] finiteValues_append finiteValues_replicate pooledIndex_def
        sum_list_replicate)
  have s: "spec_posturalControl
       (replicate 10 (sittingFrameWith (Fin 0.6))) (replicate 20 (risingFrameWith (Fin 0)))
     = Fin 0.39"
    by (simp add: spec_posturalControl_def sittingFrameWith_def risingFrameWith_def
        metricAverage_replicate average_pair clamp01_def)
  show ?thesis
    unfolding c s by simp
qed

section \<open>The angle at a keypoint\<close>




section \<open>Frame sampling\<close>

text \<open>
  Claim C8: \<^verbatim>\<open>sampleFrames\<close> returns a list of at most 40 frames unchanged; of a longer
  list it returns at most 40 frames: the first frame, the frames at the multiples of the stride
  \<open>\<lceil>count / 40\<rceil>\<close> that lie more than a stride before the end, and the last frame.
\<close>

theorem sampleFrames_bounded_stride:
  "(length frames \<le> 40 \<longrightarrow> sampleFrames frames = frames)
   \<and> (40 < length frames \<longrightarrow>
        sampleFrames frames =
          frames ! 0
          # map (\<lambda>k. frames ! (k * nat \<lceil>real (length frames) / 40\<rceil>))
              [1 ..< (length frames - 1) div nat \<lceil>real (length frames) / 40\<rceil>]
          @ [frames ! (length frames - 1)]
        \<and> length (sampleFrames frames) \<le> 40
        \<and> hd (sampleFrames frames) = hd frames
        \<and> last (sampleFrames frames) = last frames)"
proof (intro conjI impI)
  assume "length frames \<le> 40"
  then show "sampleFrames frames = frames"
    by (simp add: sampleFrames_def MAX_FRAMES_def)
next
  assume big: "40 < length frames"
  let ?n = "length frames"
  let ?s = "nat \<lceil>real ?n / 40\<rceil>"
  have s: "?n \<le> 40 * ?s" "2 \<le> ?s" "?s \<le> ?n - 1"
    using step_covers [OF big] by simp_all
  have pos: "0 < ?s" "0 < ?n" using s(2) big by linarith+
  have e: "sampleFrames frames =
          frames ! 0 # map (\<lambda>k. frames ! (k * ?s)) [1 ..< (?n - 1) div ?s] @ [frames ! (?n - 1)]"
    using big sampleLoop_stride [OF pos, of 1]
    by (simp add: sampleFrames_def MAX_FRAMES_def Let_def)
  have q1: "1 \<le> (?n - 1) div ?s"
    using s(3) pos(1) by (simp add: less_eq_div_iff_mult_less_eq)
  have "?n - 1 < 40 * ?s"
    using s(1) pos(2) by linarith
  then have "(?n - 1) div ?s < 40"
    using pos(1) by (simp only: div_less_iff_less_mult)
  then have l: "length (sampleFrames frames) \<le> 40"
    unfolding e using q1 by simp
  have ne: "frames \<noteq> []" using pos(2) by simp
  show "sampleFrames frames =
          frames ! 0 # map (\<lambda>k. frames ! (k * ?s)) [1 ..< (?n - 1) div ?s] @ [frames ! (?n - 1)]"
    by (rule e)
  show "length (sampleFrames frames) \<le> 40" by (rule l)
  show "hd (sampleFrames frames) = hd frames"
    unfolding e using ne by (simp add: hd_conv_nth)
  show "last (sampleFrames frames) = last frames"
    unfolding e using ne by (simp add: last_conv_nth)
qed


theorem sampleFrames_bounded_stride_witness:
  "sampleFrames [0 ..< 3 :: nat] = [0 ..< 3]
   \<and> sampleFrames [0 ..< 41 :: nat]
       = [0, 2, 4, 6, 8, 10, 12, 14, 16, 18, 20, 22, 24, 26, 28, 30, 32, 34, 36, 38, 40]
   \<and> length (sampleFrames [0 ..< 41 :: nat]) \<le> 40
   \<and> hd (sampleFrames [0 ..< 41 :: nat]) = 0
   \<and> last (sampleFrames [0 ..< 41 :: nat]) = 40"
proof -
  note a = sampleFrames_bounded_stride [of "[0 ..< 3 :: nat]"]
  note b = sampleFrames_bounded_stride [of "[0 ..< 41 :: nat]"]
  have s: "nat \<lceil>real (length [0 ..< 41 :: nat]) / 40\<rceil> = 2"
    by (simp add: ceiling_eq_iff)
  have m: "map (\<lambda>k. [0 ..< 41 :: nat] ! (k * 2)) [Suc 0 ..< 20]
      = [2, 4, 6, 8, 10, 12, 14, 16, 18, 20, 22, 24, 26, 28, 30, 32, 34, 36, 38]"
    by code_simp
  have 1: "sampleFrames [0 ..< 3 :: nat] = [0 ..< 3]"
    using a by simp
  have big: "40 < length [0 ..< 41 :: nat]"
    by simp
  have 2: "sampleFrames [0 ..< 41 :: nat]
       = [0, 2, 4, 6, 8, 10, 12, 14, 16, 18, 20, 22, 24, 26, 28, 30, 32, 34, 36, 38, 40]"
    using b [THEN conjunct2, rule_format, OF big, THEN conjunct1] unfolding s
    by (simp add: m)
  have 3: "length (sampleFrames [0 ..< 41 :: nat]) \<le> 40"
    using b [THEN conjunct2, rule_format, OF big] by blast
  have 4: "hd (sampleFrames [0 ..< 41 :: nat]) = 0"
    using b [THEN conjunct2, rule_format, OF big] by (simp add: hd_conv_nth)
  have 5: "last (sampleFrames [0 ..< 41 :: nat]) = 40"
    using b [THEN conjunct2, rule_format, OF big] by (simp add: last_conv_nth)
  show ?thesis
    by (intro conjI 1 2 3 4 5)
qed

section \<open>Phase segmentation\<close>



section \<open>Support penalties\<close>

text \<open>
  Claim C10: with the phase metric averages fixed, adding a \<open>HAND\<close> support to a phase that
  had none does not increase that phase's score, the penalty of a phase being 1.0 if \<open>HAND\<close>
  occurs in one of the phase's frames plus 0.5 if \<open>KNEE\<close> does, at most 1.5.
  \<^verbatim>\<open>calculateSupportPenalty\<close> does not take the penalties over the two phases that
  \<^verbatim>\<open>analyzeSRTVideo\<close> cuts at the transition frame: the sitting penalty is taken over the
  first half of the frames and the rising penalty over the rest, wherever the transition is.
  The theorem states the claim for the two halves: for metric averages that are finite
  doubles, adding \<open>HAND\<close> to any frame increases neither the sit score nor the rise score; the
  two penalties are those of the first \<open>length div 2\<close> frames and of the remaining frames; the
  penalty of a list of frames is 1.0 if \<open>HAND\<close> occurs in one of them plus 0.5 if \<open>KNEE\<close> does,
  at most 1.5; and adding \<open>HAND\<close> to a list that had none raises its penalty by 1.
\<close>

theorem support_penalty_by_halves:
  assumes "\<bar>kf\<bar> < 2 ^ 1024" "\<bar>hc\<bar> < 2 ^ 1024" "\<bar>sa\<bar> < 2 ^ 1024"
    and "\<bar>ke\<bar> < 2 ^ 1024" "\<bar>dr\<bar> < 2 ^ 1024" "\<bar>sb\<bar> < 2 ^ 1024"
  shows "sitScore (calculatePhaseScores
      \<lparr>kneeFlexionAvg = Fin kf, hipControlAvg = Fin hc, spinalAlignmentAvg = Fin sa\<rparr>
      \<lparr>kneeExtensionAvg = Fin ke, hipDriveAvg = Fin dr, stabilityAvg = Fin sb\<rparr>
      (calculateSupportPenalty (supportPoints[i := HAND # supportPoints ! i])))
   \<le> sitScore (calculatePhaseScores
      \<lparr>kneeFlexionAvg = Fin kf, hipControlAvg = Fin hc, spinalAlignmentAvg = Fin sa\<rparr>
      \<lparr>kneeExtensionAvg = Fin ke, hipDriveAvg = Fin dr, stabilityAvg = Fin sb\<rparr>
      (calculateSupportPenalty supportPoints))
   \<and> riseScore (calculatePhaseScores
      \<lparr>kneeFlexionAvg = Fin kf, hipControlAvg = Fin hc, spinalAlignmentAvg = Fin sa\<rparr>
      \<lparr>kneeExtensionAvg = Fin ke, hipDriveAvg = Fin dr, stabilityAvg = Fin sb\<rparr>
      (calculateSupportPenalty (supportPoints[i := HAND # supportPoints ! i])))
   \<le> riseScore (calculatePhaseScores
      \<lparr>kneeFlexionAvg = Fin kf, hipControlAvg = Fin hc, spinalAlignmentAvg = Fin sa\<rparr>
      \<lparr>kneeExtensionAvg = Fin ke, hipDriveAvg = Fin dr, stabilityAvg = Fin sb\<rparr>
      (calculateSupportPenalty supportPoints))
   \<and> calculateSupportPenalty supportPoints =
       \<lparr>sitting = calculatePhasePenalty (take (length supportPoints div 2) supportPoints),
        rising = calculatePhasePenalty (drop (length supportPoints div 2) supportPoints)\<rparr>
   \<and> calculatePhasePenalty phaseSupports =
       Fin ((if HAND \<in> set (concat phaseSupports) then 1 else 0)
            + (if KNEE \<in> set (concat phaseSupports) then 0.5 else 0))
   \<and> calculatePhasePenalty phaseSupports \<le> Fin 1.5
   \<and> (j < length phaseSupports \<and> HAND \<notin> set (concat phaseSupports)
        \<longrightarrow> calculatePhasePenalty (phaseSupports[j := HAND # phaseSupports ! j])
            = calculatePhasePenalty phaseSupports + Fin 1)"
proof -
  let ?k = "length supportPoints div 2"
  let ?sp' = "supportPoints[i := HAND # supportPoints ! i]"
  let ?S = "rawPhaseScore 0.35 kf 0.35 hc 0.3 sa"
  let ?R = "rawPhaseScore 0.3 ke 0.4 dr 0.3 sb"
  have p: "calculateSupportPenalty supportPoints =
      \<lparr>sitting = Fin (penaltyOf (set (concat (take ?k supportPoints)))),
       rising = Fin (penaltyOf (set (concat (drop ?k supportPoints))))\<rparr>"
    by (simp add: calculateSupportPenalty_def Let_def calculatePhasePenalty_Fin)
  have p': "calculateSupportPenalty ?sp' =
      \<lparr>sitting = Fin (penaltyOf (set (concat (take ?k ?sp')))),
       rising = Fin (penaltyOf (set (concat (drop ?k ?sp'))))\<rparr>"
    by (simp add: calculateSupportPenalty_def Let_def calculatePhasePenalty_Fin)
  note e = calculatePhaseScores_Fin [OF assms(1,2,3) penaltyOf_double assms(4,5,6) penaltyOf_double]
  have s: "reported (penalizedScore ?S (penaltyOf (set (concat (take ?k ?sp')))))
      \<le> reported (penalizedScore ?S (penaltyOf (set (concat (take ?k supportPoints)))))"
    by (intro reported_mono penalizedScore_antimono penalty_after_HAND)
  have r: "reported (penalizedScore ?R (penaltyOf (set (concat (drop ?k ?sp')))))
      \<le> reported (penalizedScore ?R (penaltyOf (set (concat (drop ?k supportPoints)))))"
    by (intro reported_mono penalizedScore_antimono penalty_after_HAND)
  have 0: "sitScore (calculatePhaseScores
      \<lparr>kneeFlexionAvg = Fin kf, hipControlAvg = Fin hc, spinalAlignmentAvg = Fin sa\<rparr>
      \<lparr>kneeExtensionAvg = Fin ke, hipDriveAvg = Fin dr, stabilityAvg = Fin sb\<rparr>
      (calculateSupportPenalty ?sp'))
   \<le> sitScore (calculatePhaseScores
      \<lparr>kneeFlexionAvg = Fin kf, hipControlAvg = Fin hc, spinalAlignmentAvg = Fin sa\<rparr>
      \<lparr>kneeExtensionAvg = Fin ke, hipDriveAvg = Fin dr, stabilityAvg = Fin sb\<rparr>
      (calculateSupportPenalty supportPoints))"
    unfolding p p' e using s by simp
  have 1: "riseScore (calculatePhaseScores
      \<lparr>kneeFlexionAvg = Fin kf, hipControlAvg = Fin hc, spinalAlignmentAvg = Fin sa\<rparr>
      \<lparr>kneeExtensionAvg = Fin ke, hipDriveAvg = Fin dr, stabilityAvg = Fin sb\<rparr>
      (calculateSupportPenalty ?sp'))
   \<le> riseScore (calculatePhaseScores
      \<lparr>kneeFlexionAvg = Fin kf, hipControlAvg = Fin hc, spinalAlignmentAvg = Fin sa\<rparr>
      \<lparr>kneeExtensionAvg = Fin ke, hipDriveAvg = Fin dr, stabilityAvg = Fin sb\<rparr>
      (calculateSupportPenalty supportPoints))"
    unfolding p p' e using r by simp
  have 2: "calculateSupportPenalty supportPoints =
       \<lparr>sitting = calculatePhasePenalty (take (length supportPoints div 2) supportPoints),
        rising = calculatePhasePenalty (drop (length supportPoints div 2) supportPoints)\<rparr>"
    by (simp add: calculateSupportPenalty_def Let_def)
  have 3: "calculatePhasePenalty phaseSupports =
       Fin ((if HAND \<in> set (concat phaseSupports) then 1 else 0)
            + (if KNEE \<in> set (concat phaseSupports) then 0.5 else 0))"
    unfolding calculatePhasePenalty_Fin penaltyOf_def ..
  have 4: "calculatePhasePenalty phaseSupports \<le> Fin 1.5"
    unfolding calculatePhasePenalty_Fin using penaltyOf_le by simp
  have 5: "j < length phaseSupports \<and> HAND \<notin> set (concat phaseSupports)
        \<longrightarrow> calculatePhasePenalty (phaseSupports[j := HAND # phaseSupports ! j])
            = calculatePhasePenalty phaseSupports + Fin 1"
  proof (intro impI)
    assume h: "j < length phaseSupports \<and> HAND \<notin> set (concat phaseSupports)"
    then have lt: "j < length phaseSupports" and no: "HAND \<notin> set (concat phaseSupports)"
      by blast+
    have "penaltyOf (set (concat (phaseSupports[j := HAND # phaseSupports ! j])))
        = penaltyOf (set (concat phaseSupports)) + 1"
      by (simp only: concat_add_HAND [OF lt] penaltyOf_insert_HAND [OF no])
    then show "calculatePhasePenalty (phaseSupports[j := HAND # phaseSupports ! j])
        = calculatePhasePenalty phaseSupports + Fin 1"
      by (simp only: calculatePhasePenalty_Fin plus_jsnum.simps)
  qed
  show ?thesis
    by (intro conjI 0 1 2 3 4 5)
qed

theorem support_penalty_by_halves_witness:
  "calculatePhasePenalty ([[], [KNEE], []][0 := HAND # [[], [KNEE], []] ! 0]) = Fin 1.5
   \<and> calculatePhasePenalty [[], [KNEE], []] = Fin 0.5
   \<and> sitScore (calculatePhaseScores
        \<lparr>kneeFlexionAvg = Fin 1, hipControlAvg = Fin 1, spinalAlignmentAvg = Fin 1\<rparr>
        \<lparr>kneeExtensionAvg = Fin 1, hipDriveAvg = Fin 1, stabilityAvg = Fin 1\<rparr>
        (calculateSupportPenalty ([[], [], [], []][0 := HAND # [[], [], [], []] ! 0])))
      \<le> sitScore (calculatePhaseScores
        \<lparr>kneeFlexionAvg = Fin 1, hipControlAvg = Fin 1, spinalAlignmentAvg = Fin 1\<rparr>
        \<lparr>kneeExtensionAvg = Fin 1, hipDriveAvg = Fin 1, stabilityAvg = Fin 1\<rparr>
        (calculateSupportPenalty [[], [], [], []]))
   \<and> calculateSupportPenalty ([[], [], [], []][0 := HAND # [[], [], [], []] ! 0]) =
        \<lparr>sitting = Fin 1, rising = Fin 0\<rparr>"
proof -
  have h: "\<bar>1 :: real\<bar> < 2 ^ 1024"
    by simp
  note t = support_penalty_by_halves [OF h h h h h h, where phaseSupports = "[[], [KNEE], []]"
      and j = 0 and supportPoints = "[[], [], [], []]" and i = 0]
  note u = support_penalty_by_halves [OF h h h h h h, where phaseSupports = "[[HAND], []]"
      and j = 0 and supportPoints = "[[HAND], [], [], []]" and i = 0]
  have a: "sitScore (calculatePhaseScores
        \<lparr>kneeFlexionAvg = Fin 1, hipControlAvg = Fin 1, spinalAlignmentAvg = Fin 1\<rparr>
        \<lparr>kneeExtensionAvg = Fin 1, hipDriveAvg = Fin 1, stabilityAvg = Fin 1\<rparr>
        (calculateSupportPenalty ([[], [], [], []][0 := HAND # [[], [], [], []] ! 0])))
      \<le> sitScore (calculatePhaseScores
        \<lparr>kneeFlexionAvg = Fin 1, hipControlAvg = Fin 1, spinalAlignmentAvg = Fin 1\<rparr>
        \<lparr>kneeExtensionAvg = Fin 1, hipDriveAvg = Fin 1, stabilityAvg = Fin 1\<rparr>
        (calculateSupportPenalty [[], [], [], []]))"
    using t by blast
  have b: "calculatePhasePenalty [[], [KNEE], []] = Fin 0.5"
    using t [THEN conjunct2, THEN conjunct2, THEN conjunct2, THEN conjunct1] by simp
  have "calculatePhasePenalty ([[], [KNEE], []][0 := HAND # [[], [KNEE], []] ! 0])
      = calculatePhasePenalty [[], [KNEE], []] + Fin 1"
    using t [THEN conjunct2, THEN conjunct2, THEN conjunct2, THEN conjunct2, THEN conjunct2]
    by simp
  then have c: "calculatePhasePenalty ([[], [KNEE], []][0 := HAND # [[], [KNEE], []] ! 0])
      = Fin 1.5"
    unfolding b by simp
  have d: "calculateSupportPenalty ([[], [], [], []][0 := HAND # [[], [], [], []] ! 0]) =
        \<lparr>sitting = Fin 1, rising = Fin 0\<rparr>"
    using u [THEN conjunct2, THEN conjunct2, THEN conjunct1]
      u [THEN conjunct2, THEN conjunct2, THEN conjunct2, THEN conjunct1]
      support_penalty_by_halves [OF h h h h h h, where phaseSupports = "[[], []]", THEN conjunct2,
        THEN conjunct2, THEN conjunct2, THEN conjunct1]
    by simp
  show ?thesis
    by (intro conjI c b a d)
qed

text \<open>
  In \<open>hand_while_sitting\<close> the transition is at frame 25, so that the sitting phase is made
  of the frames 0 to 24 and the rising phase of the frames 20 to 29, and the only support is
  the hand of frame 17, a frame of the sitting phase alone. Over the frames of each phase the
  sitting penalty would be 1 and the rising penalty 0; \<^verbatim>\<open>calculateSupportPenalty\<close> returns the
  sitting penalty 0 and the rising penalty 1, and with every metric average 1 the sit score
  stays 5 and the rise score falls to 4.4.
\<close>

theorem support_penalty_phase_counterexample:
  "detectPhaseTransition (map Some hand_while_sitting) = Inr 25
   \<and> mapE supportsOf (map Some hand_while_sitting) = Inr ((replicate 30 [])[17 := [HAND]])
   \<and> sittingSlice (map Some hand_while_sitting) 25 = take 25 (map Some hand_while_sitting)
   \<and> risingSlice (map Some hand_while_sitting) 25 = drop 20 (map Some hand_while_sitting)
   \<and> spec_supportPenalty ((replicate 30 [])[17 := [HAND]]) 25 = \<lparr>sitting = Fin 1, rising = Fin 0\<rparr>
   \<and> calculateSupportPenalty ((replicate 30 [])[17 := [HAND]]) = \<lparr>sitting = Fin 0, rising = Fin 1\<rparr>
   \<and> calculatePhaseScores
        \<lparr>kneeFlexionAvg = Fin 1, hipControlAvg = Fin 1, spinalAlignmentAvg = Fin 1\<rparr>
        \<lparr>kneeExtensionAvg = Fin 1, hipDriveAvg = Fin 1, stabilityAvg = Fin 1\<rparr>
        (calculateSupportPenalty ((replicate 30 [])[17 := [HAND]])) =
      \<lparr>sitScore = Fin 5, riseScore = Fin (fl 4.4), totalScore = Fin (fl 9.4)\<rparr>"
proof -
  have l: "length hand_while_sitting = 30"
    by (simp add: hand_while_sitting_def)
  have 1: "sittingSlice (map Some hand_while_sitting) 25 = take 25 (map Some hand_while_sitting)"
    "risingSlice (map Some hand_while_sitting) 25 = drop 20 (map Some hand_while_sitting)"
    by (simp_all add: sittingSlice_def risingSlice_def minFramesPerPhase_def l)
  have 2: "spec_supportPenalty ((replicate 30 [])[17 := [HAND]]) 25 =
      \<lparr>sitting = Fin 1, rising = Fin 0\<rparr>"
    by (simp add: spec_supportPenalty_def sittingSlice_def risingSlice_def
        minFramesPerPhase_def calculatePhasePenalty_def numeral_eq_Suc)
  have 3: "calculateSupportPenalty ((replicate 30 [])[17 := [HAND]]) =
      \<lparr>sitting = Fin 0, rising = Fin 1\<rparr>"
  proof -
    have l: "length ((replicate 30 ([]::support list))[17 := [HAND]]) div 2 = 15"
      by simp
    show ?thesis
      unfolding calculateSupportPenalty_def l
      by (simp add: calculatePhasePenalty_def numeral_eq_Suc)
  qed
  have h: "\<bar>1 :: real\<bar> < 2 ^ 1024" "\<bar>0 :: real\<bar> < 2 ^ 1024"
    by simp_all
  have v: "reported 5 = 5" "reported (2476979795053773 / 562949953421312) = fl 4.4"
    "reported (min 10 (5291729562160333 / 562949953421312)) = fl 9.4"
    by (simp_all add: reported_values) (simp_all add: reported_def round2_def)
  have 4: "calculatePhaseScores
        \<lparr>kneeFlexionAvg = Fin 1, hipControlAvg = Fin 1, spinalAlignmentAvg = Fin 1\<rparr>
        \<lparr>kneeExtensionAvg = Fin 1, hipDriveAvg = Fin 1, stabilityAvg = Fin 1\<rparr>
        (calculateSupportPenalty ((replicate 30 [])[17 := [HAND]])) =
      \<lparr>sitScore = Fin 5, riseScore = Fin (fl 4.4), totalScore = Fin (fl 9.4)\<rparr>"
    unfolding 3 calculatePhaseScores_Fin [OF h(1) h(1) h(1) h(2) h(1) h(1) h(1) h(1)]
      sit_score_ones rise_score_ones_hand total_ones_hand v ..
  show ?thesis
    by (intro conjI hand_while_sitting_transition hand_while_sitting_supports 1 2 3 4)
qed

end
